theory Spec2Isabelle
  imports Main "HOL-Library.Multiset" "HOL-Library.AList"
begin

section \<open>Errors, requests and responses\<close>

text \<open>
  Exceptions of the Python program, as values. \<open>HTTPError\<close> and \<open>ConnectionError\<close> are the
  two kinds of \<open>requests.exceptions.RequestException\<close>; the others are plain
  \<open>Exception\<close>s. \<open>BadResponse\<close> stands for the exception raised when a response body
  does not have the shape the caller decodes.
\<close>

datatype error =
    HTTPError nat
  | ConnectionError
  | NameError string
  | ValueError
  | KeyError string
  | TypeError
  | AttributeError
  | BadResponse
  | AuthError
  | FileNotFoundError

datatype http_method = GET | POST

text \<open>
  A tenant's \<open>metadata\<close> is JSON text: the text, and whether \<open>json.loads\<close> accepts it.
\<close>

datatype metadata = Metadata (md_parses: bool) (md_text: string)

record tenant =
  t_tenantId :: string
  t_name :: string
  t_metadata :: "metadata option"

record user =
  u_id :: string
  u_email :: string
  u_tenantId :: string

record role =
  r_key :: string
  r_id :: string

record user_roles =
  ur_userId :: string
  ur_roleIds :: "string list"
  ur_tenantId :: "string option"

record category =
  c_id :: string
  c_name :: string
  c_description :: "string option"

record permission =
  p_name :: string
  p_description :: "string option"
  p_categoryId :: "string option"
  p_key :: string
  p_assignmentType :: "string option"

record permission_data =
  pd_name :: string
  pd_description :: string
  pd_categoryId :: string
  pd_key :: string
  pd_assignmentType :: string

text \<open>The \<open>json=\<close> argument of a request.\<close>

datatype body =
    NoBody
  | TenantBody string string
  | MetadataBody string
  | CategoryBody string string
  | PermissionsBody "permission_data list"
  | RoleIdsBody "string list"

record request =
  rq_method :: http_method
  rq_url :: string
  rq_auth :: string
  rq_tenant :: "string option"
  rq_params :: "(string \<times> string) list"
  rq_body :: body

text \<open>The decoded JSON of a response, by endpoint.\<close>

datatype payload =
    NoContent
  | TenantsPage "tenant list" "string option"
  | UsersPage "user list" "string option"
  | RolesList "role list"
  | UserRolesList "user_roles list"
  | CategoriesList "category list"
  | PermissionsList "permission list"

text \<open>
  What the program meets when it iterates over a decoded JSON value: an object of one of
  the kinds above, or a string (iterating over a JSON object gives its keys). A record
  holds the whole object: the object has the record's fields and no other key; an optional
  field that is \<open>None\<close> is a key that is absent, except \<open>categoryId\<close>, where it is
  \<open>null\<close>.
\<close>

datatype item =
    CategoryItem category
  | PermissionItem permission
  | RoleItem role
  | UserRolesItem user_roles
  | KeyItem string

text \<open>
  The items of a response body, in the order of iteration; \<open>None\<close> when the response has
  no JSON body, in which case \<open>response.json()\<close> raises.
\<close>

definition items_of :: "payload \<Rightarrow> item list option" where
  "items_of p =
     (case p of
        NoContent \<Rightarrow> None
      | TenantsPage xs n \<Rightarrow> Some [KeyItem ''items'', KeyItem ''_links'']
      | UsersPage xs n \<Rightarrow> Some [KeyItem ''items'', KeyItem ''_links'']
      | RolesList xs \<Rightarrow> Some (map RoleItem xs)
      | UserRolesList xs \<Rightarrow> Some (map UserRolesItem xs)
      | CategoriesList xs \<Rightarrow> Some (map CategoryItem xs)
      | PermissionsList xs \<Rightarrow> Some (map PermissionItem xs))"

text \<open>
  \<open>x['name']\<close>, \<open>x['id']\<close>, \<open>x['categoryId']\<close> and \<open>x.get('description', '')\<close> on an
  item: a missing key raises \<open>KeyError\<close>, indexing a string by a string raises
  \<open>TypeError\<close>, and a string has no \<open>get\<close>.
\<close>

definition item_name :: "item \<Rightarrow> error + string" where
  "item_name x =
     (case x of
        CategoryItem c \<Rightarrow> Inr (c_name c)
      | PermissionItem p \<Rightarrow> Inr (p_name p)
      | RoleItem r \<Rightarrow> Inl (KeyError ''name'')
      | UserRolesItem u \<Rightarrow> Inl (KeyError ''name'')
      | KeyItem k \<Rightarrow> Inl TypeError)"

definition item_id :: "item \<Rightarrow> error + string" where
  "item_id x =
     (case x of
        CategoryItem c \<Rightarrow> Inr (c_id c)
      | PermissionItem p \<Rightarrow> Inl (KeyError ''id'')
      | RoleItem r \<Rightarrow> Inr (r_id r)
      | UserRolesItem u \<Rightarrow> Inl (KeyError ''id'')
      | KeyItem k \<Rightarrow> Inl TypeError)"

definition item_categoryId :: "item \<Rightarrow> error + string option" where
  "item_categoryId x =
     (case x of
        CategoryItem c \<Rightarrow> Inl (KeyError ''categoryId'')
      | PermissionItem p \<Rightarrow> Inr (p_categoryId p)
      | RoleItem r \<Rightarrow> Inl (KeyError ''categoryId'')
      | UserRolesItem u \<Rightarrow> Inl (KeyError ''categoryId'')
      | KeyItem k \<Rightarrow> Inl TypeError)"

definition item_description :: "item \<Rightarrow> error + string" where
  "item_description x =
     (case x of
        CategoryItem c \<Rightarrow> Inr (case c_description c of None \<Rightarrow> [] | Some d \<Rightarrow> d)
      | PermissionItem p \<Rightarrow> Inr (case p_description p of None \<Rightarrow> [] | Some d \<Rightarrow> d)
      | RoleItem r \<Rightarrow> Inr []
      | UserRolesItem u \<Rightarrow> Inr []
      | KeyItem k \<Rightarrow> Inl AttributeError)"

text \<open>The \<open>Retry-After\<close> header: absent, an integer literal, or some other text.\<close>

datatype retry_header = Absent | Seconds int | NotAnInt

record response =
  status_code :: nat
  retry_after :: retry_header
  payload :: payload

record client =
  base_url :: string

text \<open>
  The rows of the two CSV inputs, with the key column, some of the columns that pass
  through, and \<open>createdAt\<close> as the instant \<open>pd.to_datetime\<close> gives; and a row of the
  CSV output (\<open>userId\<close> and \<open>createdAt\<close> are not among the selected columns).
\<close>

record csv_user =
  cu_userId :: string
  cu_name :: string
  cu_email :: string
  cu_tenantId :: string
  cu_phone :: string
  cu_provider :: string
  cu_verified :: string

record csv_hash =
  ch_userId :: string
  ch_hash :: string
  ch_createdAt :: int

record credential_record =
  cr_name :: string
  cr_email :: string
  cr_tenantId :: string
  cr_hash :: "string option"
  cr_phone :: string
  cr_provider :: string
  cr_verified :: string

text \<open>
  The remote side and the credential refresh are outside the program: an environment gives,
  from its own state, the outcome of \<open>client.get_headers()\<close> (which may re-authenticate and
  raise) and of \<open>client.session.request(...)\<close> (which may raise a \<open>RequestException\<close>),
  and what reading each of the two CSV files gives.
\<close>

record 's env =
  env_get_headers :: "'s \<Rightarrow> client \<Rightarrow> (error + string) \<times> 's"
  env_request :: "'s \<Rightarrow> request \<Rightarrow> (error + response) \<times> 's"
  env_read_users_csv :: "'s \<Rightarrow> error + csv_user list"
  env_read_hashes_csv :: "'s \<Rightarrow> error + csv_hash list"

text \<open>
  The state threaded through the program: the state of the environment, the requests sent
  so far, the lines written by \<open>log\<close>, and the CSV file written. Of the log lines, the model
  keeps the first line of each stage function and the lines that record a failure, a skip or
  a dropped identifier (without the quotation marks and the exception text of the original);
  progress lines are left out.
\<close>

record 's world =
  server :: 's
  trace :: "request list"
  logs :: "string list"
  csv_written :: "credential_record list option"

definition log :: "string \<Rightarrow> 's world \<Rightarrow> 's world" where
  "log msg w = w\<lparr>logs := logs w @ [msg]\<rparr>"

definition get_headers :: "'s env \<Rightarrow> client \<Rightarrow> 's world \<Rightarrow> (error + string) \<times> 's world" where
  "get_headers env c w =
     (case env_get_headers env (server w) c of
        (r, s') \<Rightarrow> (r, w\<lparr>server := s'\<rparr>))"

definition session_request ::
  "'s env \<Rightarrow> request \<Rightarrow> 's world \<Rightarrow> (error + response) \<times> 's world" where
  "session_request env rq w =
     (case env_request env (server w) rq of
        (r, s') \<Rightarrow> (r, w\<lparr>server := s', trace := trace w @ [rq]\<rparr>))"

section \<open>The rate-limited request\<close>

text \<open>
  \<open>int(response.headers.get('Retry-After', 1))\<close>: the default is 1, and a header that is
  not an integer literal raises \<open>ValueError\<close>.
\<close>

definition retry_after_int :: "retry_header \<Rightarrow> error + int" where
  "retry_after_int h =
     (case h of Absent \<Rightarrow> Inr 1 | Seconds n \<Rightarrow> Inr n | NotAnInt \<Rightarrow> Inl ValueError)"

text \<open>
  \<open>time.sleep(retry_after)\<close>: the module imports \<open>json\<close>, \<open>os\<close>, \<open>logging\<close>,
  \<open>datetime\<close>, \<open>pandas\<close>, \<open>requests\<close> and \<open>dotenv\<close>, and never \<open>time\<close>, so
  evaluating the name \<open>time\<close> raises \<open>NameError\<close>.
\<close>

definition time_sleep :: "int \<Rightarrow> error + unit" where
  "time_sleep n = Inl (NameError ''time'')"

text \<open>\<open>response.raise_for_status()\<close> raises for the statuses 400 to 599.\<close>

definition raise_for_status :: "response \<Rightarrow> error + unit" where
  "raise_for_status r =
     (if 400 \<le> status_code r \<and> status_code r < 600 then Inl (HTTPError (status_code r))
      else Inr ())"

text \<open>
  The \<open>while True\<close> loop of \<open>make_request_with_rate_limiting\<close>. The handler of
  \<open>RequestException\<close> logs and re-raises, and every other exception propagates, so an
  error of the body is the error of the call. The loop goes round only after
  \<open>time.sleep\<close> has returned, which is the condition of the recursive call; as
  \<open>time_sleep\<close> never returns, the function is total.
\<close>

function make_request_with_rate_limiting ::
  "'s env \<Rightarrow> request \<Rightarrow> 's world \<Rightarrow> (error + response) \<times> 's world" where
  "make_request_with_rate_limiting env rq w =
     (case session_request env rq w of
        (Inl e, w') \<Rightarrow> (Inl e, w')
      | (Inr r, w') \<Rightarrow>
          if status_code r = 429 then
            (case retry_after_int (retry_after r) of
               Inl e \<Rightarrow> (Inl e, w')
             | Inr n \<Rightarrow>
                 (case time_sleep n of
                    Inl e \<Rightarrow> (Inl e, w')
                  | Inr u \<Rightarrow> make_request_with_rate_limiting env rq w'))
          else
            (case raise_for_status r of
               Inl e \<Rightarrow> (Inl e, w')
             | Inr u \<Rightarrow> (Inr r, w')))"
  by pat_completeness auto
termination
  by (relation "{}") (simp_all add: time_sleep_def)

section \<open>Pagination\<close>

text \<open>
  \<open>get_all_paginated_items\<close>. A decoder reads \<open>response_json.get('items', [])\<close> and
  \<open>response_json.get('_links', {}).get('next')\<close> from the body. The loop variable
  \<open>next_url\<close> is a string or \<open>None\<close>; the loop may not end, so it is a partial function.
\<close>

type_synonym 'a decoder = "payload \<Rightarrow> ('a list \<times> string option) option"

definition get_request :: "string \<Rightarrow> string \<Rightarrow> (string \<times> string) list \<Rightarrow> request" where
  "get_request hdrs url params =
     \<lparr>rq_method = GET, rq_url = url, rq_auth = hdrs, rq_tenant = None,
      rq_params = params, rq_body = NoBody\<rparr>"

definition post_request :: "string \<Rightarrow> string \<Rightarrow> string option \<Rightarrow> body \<Rightarrow> request" where
  "post_request hdrs url tenant_hdr b =
     \<lparr>rq_method = POST, rq_url = url, rq_auth = hdrs, rq_tenant = tenant_hdr,
      rq_params = [], rq_body = b\<rparr>"

partial_function (option) paginate ::
  "'s env \<Rightarrow> client \<Rightarrow> string \<Rightarrow> 'a decoder \<Rightarrow> string option \<Rightarrow> (string \<times> string) list \<Rightarrow>
   'a list \<Rightarrow> 's world \<Rightarrow> ((error + 'a list) \<times> 's world) option" where
  "paginate env c hdrs dec next_url params items w =
     (case next_url of
        None \<Rightarrow> Some (Inr items, w)
      | Some url \<Rightarrow>
          if url = [] then Some (Inr items, w)
          else
            (case make_request_with_rate_limiting env (get_request hdrs url params) w of
               (Inl e, w') \<Rightarrow> Some (Inl e, w')
             | (Inr r, w') \<Rightarrow>
                 (case dec (payload r) of
                    None \<Rightarrow> Some (Inl BadResponse, w')
                  | Some (page_items, next_link) \<Rightarrow>
                      (case next_link of
                         None \<Rightarrow> paginate env c hdrs dec None params (items @ page_items) w'
                       | Some l \<Rightarrow>
                           if l \<noteq> [] then
                             paginate env c hdrs dec (Some (base_url c @ l)) []
                               (items @ page_items) w'
                           else paginate env c hdrs dec None params (items @ page_items) w'))))"

definition get_all_paginated_items ::
  "'s env \<Rightarrow> client \<Rightarrow> 'a decoder \<Rightarrow> string \<Rightarrow> (string \<times> string) list \<Rightarrow> 's world \<Rightarrow>
   ((error + 'a list) \<times> 's world) option" where
  "get_all_paginated_items env c dec endpoint params w =
     (case get_headers env c w of
        (Inl e, w') \<Rightarrow> Some (Inl e, w')
      | (Inr hdrs, w') \<Rightarrow> paginate env c hdrs dec (Some endpoint) params [] w')"

section \<open>Tenants\<close>

definition tenants_decoder :: "tenant decoder" where
  "tenants_decoder p = (case p of TenantsPage xs n \<Rightarrow> Some (xs, n) | _ \<Rightarrow> None)"

definition get_tenants ::
  "'s env \<Rightarrow> client \<Rightarrow> 's world \<Rightarrow> ((error + tenant list) \<times> 's world) option" where
  "get_tenants env c w =
     get_all_paginated_items env c tenants_decoder
       (base_url c @ ''/tenants/resources/tenants/v2'') [(''_limit'', ''100'')] w"

text \<open>
  \<open>create_tenant\<close>: \<open>get_headers\<close> is called before the \<open>try\<close>, so its error propagates;
  an error of the request is caught, logged, and the function returns \<open>None\<close>.
\<close>

definition create_tenant ::
  "'s env \<Rightarrow> client \<Rightarrow> tenant \<Rightarrow> 's world \<Rightarrow> (error + response option) \<times> 's world" where
  "create_tenant env c t w =
     (case get_headers env c w of
        (Inl e, w1) \<Rightarrow> (Inl e, w1)
      | (Inr hdrs, w1) \<Rightarrow>
          (case make_request_with_rate_limiting env
                  (post_request hdrs (base_url c @ ''/tenants/resources/tenants/v1'') None
                     (TenantBody (t_tenantId t) (t_name t))) w1 of
             (Inl e, w2) \<Rightarrow> (Inr None, log (''Error creating tenant '' @ t_tenantId t) w2)
           | (Inr r, w2) \<Rightarrow> (Inr (Some r), w2)))"


text \<open>The \<open>for\<close> loop of \<open>bulk_create_tenants\<close>, over the set of existing tenant ids.\<close>

fun create_absent_tenants ::
  "'s env \<Rightarrow> client \<Rightarrow> string set \<Rightarrow> tenant list \<Rightarrow> 's world \<Rightarrow> (error + unit) \<times> 's world" where
  "create_absent_tenants env c existing [] w = (Inr (), w)"
| "create_absent_tenants env c existing (t # ts) w =
     (if t_tenantId t \<in> existing then
        create_absent_tenants env c existing ts
          (log (''Tenant '' @ t_tenantId t @ '' already exists. Skipping.'') w)
      else
        (case create_tenant env c t w of
           (Inl e, w') \<Rightarrow> (Inl e, w')
         | (Inr r, w') \<Rightarrow> create_absent_tenants env c existing ts w'))"

definition bulk_create_tenants ::
  "'s env \<Rightarrow> client \<Rightarrow> tenant list \<Rightarrow> 's world \<Rightarrow> ((error + unit) \<times> 's world) option" where
  "bulk_create_tenants env dst tenants w =
     (case get_tenants env dst (log ''Starting bulk creation of tenants'' w) of
        None \<Rightarrow> None
      | Some (Inl e, w1) \<Rightarrow> Some (Inl e, w1)
      | Some (Inr existing, w1) \<Rightarrow>
          Some (create_absent_tenants env dst (set (map t_tenantId existing)) tenants w1))"



section \<open>Roles and their translation\<close>

text \<open>
  A Python \<open>dict\<close> is an association list with distinct keys in insertion order:
  \<open>d[k] = v\<close> is \<open>AList.update k v d\<close> and \<open>d.get(k)\<close> is \<open>map_of d k\<close>.
\<close>

definition get_roles_mapping ::
  "'s env \<Rightarrow> client \<Rightarrow> 's world \<Rightarrow> (error + (string \<times> string) list) \<times> 's world" where
  "get_roles_mapping env c w =
     (case get_headers env c w of
        (Inl e, w1) \<Rightarrow> (Inl e, w1)
      | (Inr hdrs, w1) \<Rightarrow>
          (case make_request_with_rate_limiting env
                  (get_request hdrs (base_url c @ ''/identity/resources/roles/v1'') []) w1 of
             (Inl e, w2) \<Rightarrow> (Inr [], log ''Error fetching roles'' w2)
           | (Inr r, w2) \<Rightarrow>
               (case payload r of
                  RolesList roles_list \<Rightarrow>
                    (Inr (fold (\<lambda>role d. AList.update (r_key role) (r_id role) d) roles_list []),
                     w2)
                | _ \<Rightarrow> (Inr [], log ''Error fetching roles'' w2))))"

text \<open>The loop of \<open>get_role_id_translations\<close> over \<open>source_roles.items()\<close>.\<close>

fun role_id_translation_loop ::
  "(string \<times> string) list \<Rightarrow> (string \<times> string) list \<Rightarrow> (string \<times> string) list \<Rightarrow> 's world \<Rightarrow>
   (string \<times> string) list \<times> 's world" where
  "role_id_translation_loop destination_roles [] tr w = (tr, w)"
| "role_id_translation_loop destination_roles ((key, source_id) # rest) tr w =
     (case map_of destination_roles key of
        Some dest_id \<Rightarrow>
          if dest_id \<noteq> [] then
            role_id_translation_loop destination_roles rest (AList.update source_id dest_id tr) w
          else
            role_id_translation_loop destination_roles rest tr
              (log (''Role key '' @ key @ '' not found in destination account.'') w)
      | None \<Rightarrow>
          role_id_translation_loop destination_roles rest tr
            (log (''Role key '' @ key @ '' not found in destination account.'') w))"

definition get_role_id_translations ::
  "'s env \<Rightarrow> client \<Rightarrow> client \<Rightarrow> 's world \<Rightarrow> (error + (string \<times> string) list) \<times> 's world" where
  "get_role_id_translations env src dst w =
     (case get_roles_mapping env src w of
        (Inl e, w1) \<Rightarrow> (Inl e, w1)
      | (Inr source_roles, w1) \<Rightarrow>
          (case get_roles_mapping env dst w1 of
             (Inl e, w2) \<Rightarrow> (Inl e, w2)
           | (Inr destination_roles, w2) \<Rightarrow>
               (case role_id_translation_loop destination_roles source_roles [] w2 of
                  (tr, w3) \<Rightarrow> (Inr tr, w3))))"

text \<open>
  \<open>translate_role_ids\<close> returns \<open>json.dumps\<close> of the translated list; the cell is modelled
  by the list it encodes (\<open>json.loads\<close> of it, in \<open>assign_user_roles\<close>, gives the list back).
\<close>

definition role_diagnostic :: "string \<Rightarrow> string" where
  "role_diagnostic role_id = ''Role ID '' @ role_id @ '' not found in translation mapping.''"

fun translate_role_ids ::
  "(string \<times> string) list \<Rightarrow> string list \<Rightarrow> 's world \<Rightarrow> string list \<times> 's world" where
  "translate_role_ids role_id_translation [] w = ([], w)"
| "translate_role_ids role_id_translation (role_id # role_ids) w =
     (case map_of role_id_translation role_id of
        Some translated_id \<Rightarrow>
          if translated_id \<noteq> [] then
            (case translate_role_ids role_id_translation role_ids w of
               (out, w') \<Rightarrow> (translated_id # out, w'))
          else
            translate_role_ids role_id_translation role_ids
              (log (role_diagnostic role_id) w)
      | None \<Rightarrow>
          translate_role_ids role_id_translation role_ids
            (log (role_diagnostic role_id) w))"

section \<open>Data frames\<close>

text \<open>
  \<open>pd.merge(left, right, how='left')\<close> keeps the rows of the left frame in order, one row
  for each matching row of the right frame (in the right frame's order), and one row with
  missing right-hand columns when there is none; \<open>how='inner'\<close> drops that last kind.
\<close>

definition merge_left ::
  "('a \<Rightarrow> 'k) \<Rightarrow> ('b \<Rightarrow> 'k) \<Rightarrow> 'a list \<Rightarrow> 'b list \<Rightarrow> ('a \<times> 'b option) list" where
  "merge_left kl kr xs ys =
     concat (map (\<lambda>x. case filter (\<lambda>y. kr y = kl x) ys of
                         [] \<Rightarrow> [(x, None)]
                       | m # ms \<Rightarrow> map (\<lambda>y. (x, Some y)) (m # ms)) xs)"

definition merge_inner ::
  "('a \<Rightarrow> 'k) \<Rightarrow> ('b \<Rightarrow> 'k) \<Rightarrow> 'a list \<Rightarrow> 'b list \<Rightarrow> ('a \<times> 'b) list" where
  "merge_inner kl kr xs ys =
     concat (map (\<lambda>x. map (\<lambda>y. (x, y)) (filter (\<lambda>y. kr y = kl x) ys)) xs)"

text \<open>\<open>Series.unique()\<close>: the distinct values in order of first appearance.\<close>

fun unique :: "'a list \<Rightarrow> 'a list" where
  "unique [] = []"
| "unique (x # xs) = x # unique (filter (\<lambda>y. y \<noteq> x) xs)"

text \<open>
  \<open>str.lower()\<close>, on ASCII text only: the letters \<open>A\<close> to \<open>Z\<close> are mapped to \<open>a\<close> to
  \<open>z\<close> and every other character is left as it is. What Python does to letters outside
  ASCII is not modelled.
\<close>

definition lower_char :: "char \<Rightarrow> char" where
  "lower_char ch =
     (let n = (of_char ch :: nat) in if 65 \<le> n \<and> n \<le> 90 then char_of (n + 32) else ch)"

definition lower :: "string \<Rightarrow> string" where
  "lower s = map lower_char s"

text \<open>The slices \<open>user_ids[i:i + chunk_size]\<close> for \<open>i\<close> in \<open>range(0, len(user_ids), chunk_size)\<close>.\<close>

fun chunks :: "nat \<Rightarrow> 'a list \<Rightarrow> 'a list list" where
  "chunks n xs = (if n = 0 \<or> xs = [] then [] else take n xs # chunks n (drop n xs))"

fun join_comma :: "string list \<Rightarrow> string" where
  "join_comma [] = []"
| "join_comma [x] = x"
| "join_comma (x # y # ys) = x @ '','' @ join_comma (y # ys)"

section \<open>Users and role assignments\<close>

text \<open>A row of the first merge, and a row of the frame given to \<open>assign_user_roles\<close>.\<close>

record joined_user =
  j_email :: string
  j_tenantId :: string
  j_id_source :: string
  j_id_dest :: "string option"

record assignment_row =
  a_email :: string
  a_tenantId :: string
  a_id_source :: string
  a_id_dest :: "string option"
  a_roleIds :: "string list option"



text \<open>
  The first part of \<open>migrate_users\<close>: the two frames, their emails lower-cased, and the left
  merge on \<open>email\<close> and \<open>tenantId\<close>. A frame built from an empty list has no column, and
  reading its \<open>email\<close> column raises \<open>KeyError\<close>.
\<close>

definition lower_emails :: "user list \<Rightarrow> user list" where
  "lower_emails us = map (\<lambda>u. u\<lparr>u_email := lower (u_email u)\<rparr>) us"

definition merge_users :: "user list \<Rightarrow> user list \<Rightarrow> error + joined_user list" where
  "merge_users source_users destination_users =
     (if source_users = [] then Inl (KeyError ''email'')
      else if destination_users = [] then Inl (KeyError ''email'')
      else Inr (map (\<lambda>(s, d). \<lparr>j_email = u_email s, j_tenantId = u_tenantId s,
                               j_id_source = u_id s, j_id_dest = map_option u_id d\<rparr>)
                  (merge_left (\<lambda>u. (u_email u, u_tenantId u)) (\<lambda>u. (u_email u, u_tenantId u))
                     (lower_emails source_users) (lower_emails destination_users))))"

text \<open>
  The loop of \<open>get_user_roles\<close> over the chunks: an error of a chunk's request, or of reading
  its body, is caught and logged, and the loop goes on.
\<close>

fun get_user_roles_loop ::
  "'s env \<Rightarrow> client \<Rightarrow> string \<Rightarrow> string \<Rightarrow> string list list \<Rightarrow> user_roles list \<Rightarrow> 's world \<Rightarrow>
   user_roles list \<times> 's world" where
  "get_user_roles_loop env c hdrs tenant_id [] all_roles w = (all_roles, w)"
| "get_user_roles_loop env c hdrs tenant_id (chunk # rest) all_roles w =
     (case make_request_with_rate_limiting env
             ((get_request hdrs (base_url c @ ''/identity/resources/users/v3/roles'')
                 [(''ids'', join_comma chunk)])\<lparr>rq_tenant := Some tenant_id\<rparr>) w of
        (Inl e, w') \<Rightarrow>
          get_user_roles_loop env c hdrs tenant_id rest all_roles
            (log (''Error fetching roles for tenant '' @ tenant_id) w')
      | (Inr r, w') \<Rightarrow>
          (case payload r of
             UserRolesList roles \<Rightarrow>
               get_user_roles_loop env c hdrs tenant_id rest (all_roles @ roles) w'
           | _ \<Rightarrow>
               get_user_roles_loop env c hdrs tenant_id rest all_roles
                 (log (''Error fetching roles for tenant '' @ tenant_id) w')))"

definition get_user_roles ::
  "'s env \<Rightarrow> client \<Rightarrow> string \<Rightarrow> string list \<Rightarrow> 's world \<Rightarrow>
   (error + user_roles list) \<times> 's world" where
  "get_user_roles env c tenant_id user_ids w =
     (case get_headers env c w of
        (Inl e, w1) \<Rightarrow> (Inl e, w1)
      | (Inr hdrs, w1) \<Rightarrow>
          (case get_user_roles_loop env c hdrs tenant_id (chunks 100 user_ids) [] w1 of
             (all_roles, w2) \<Rightarrow> (Inr all_roles, w2)))"

fun get_all_user_roles_loop ::
  "'s env \<Rightarrow> client \<Rightarrow> joined_user list \<Rightarrow> string list \<Rightarrow> user_roles list \<Rightarrow> 's world \<Rightarrow>
   (error + user_roles list) \<times> 's world" where
  "get_all_user_roles_loop env c users_df [] all_role_ids w = (Inr all_role_ids, w)"
| "get_all_user_roles_loop env c users_df (tenant_id # rest) all_role_ids w =
     (case get_user_roles env c tenant_id
             (map j_id_source (filter (\<lambda>r. j_tenantId r = tenant_id) users_df)) w of
        (Inl e, w') \<Rightarrow> (Inl e, w')
      | (Inr role_ids, w') \<Rightarrow>
          get_all_user_roles_loop env c users_df rest (all_role_ids @ role_ids) w')"

definition get_all_user_roles ::
  "'s env \<Rightarrow> client \<Rightarrow> joined_user list \<Rightarrow> 's world \<Rightarrow> (error + user_roles list) \<times> 's world" where
  "get_all_user_roles env c users_df w =
     get_all_user_roles_loop env c users_df (unique (map j_tenantId users_df)) [] w"

text \<open>
  \<open>assign_user_roles\<close>: the rows whose \<open>roleIds\<close> cell is not null, in order. The URL is
  formatted with the \<open>id_dest\<close> cell, and a missing cell (NaN) formats as \<open>nan\<close>.
  \<open>get_headers\<close> and \<open>json.loads\<close> are outside the \<open>try\<close>.
\<close>

definition format_cell :: "string option \<Rightarrow> string" where
  "format_cell x = (case x of None \<Rightarrow> ''nan'' | Some s \<Rightarrow> s)"

definition assignment_request :: "client \<Rightarrow> string \<Rightarrow> assignment_row \<Rightarrow> string list \<Rightarrow> request" where
  "assignment_request c hdrs row role_ids =
     post_request hdrs
       (base_url c @ ''/identity/resources/users/v1/'' @ format_cell (a_id_dest row) @ ''/roles'')
       (Some (a_tenantId row)) (RoleIdsBody role_ids)"

fun assign_user_roles_loop ::
  "'s env \<Rightarrow> client \<Rightarrow> assignment_row list \<Rightarrow> 's world \<Rightarrow> (error + unit) \<times> 's world" where
  "assign_user_roles_loop env c [] w = (Inr (), w)"
| "assign_user_roles_loop env c (row # rows) w =
     (case get_headers env c w of
        (Inl e, w1) \<Rightarrow> (Inl e, w1)
      | (Inr hdrs, w1) \<Rightarrow>
          (case a_roleIds row of
             None \<Rightarrow> (Inl TypeError, w1)
           | Some role_ids \<Rightarrow>
               (case make_request_with_rate_limiting env
                       (assignment_request c hdrs row role_ids) w1 of
                  (Inl e, w2) \<Rightarrow>
                    assign_user_roles_loop env c rows
                      (log (''Error assigning roles to user '' @ a_email row) w2)
                | (Inr r, w2) \<Rightarrow> assign_user_roles_loop env c rows w2)))"

definition assign_user_roles ::
  "'s env \<Rightarrow> client \<Rightarrow> assignment_row list \<Rightarrow> 's world \<Rightarrow> (error + unit) \<times> 's world" where
  "assign_user_roles env c users_df w =
     assign_user_roles_loop env c (filter (\<lambda>row. a_roleIds row \<noteq> None) users_df)
       (log ''Assigning user roles'' w)"

text \<open>\<open>all_user_roles_df['roleIds'].apply(...)\<close>, row by row.\<close>

fun apply_translate ::
  "(string \<times> string) list \<Rightarrow> user_roles list \<Rightarrow> 's world \<Rightarrow> user_roles list \<times> 's world" where
  "apply_translate tr [] w = ([], w)"
| "apply_translate tr (r # rs) w =
     (case translate_role_ids tr (ur_roleIds r) w of
        (ids, w1) \<Rightarrow>
          (case apply_translate tr rs w1 of
             (out, w2) \<Rightarrow> (r\<lparr>ur_roleIds := ids\<rparr> # out, w2)))"

text \<open>The inner merge on \<open>id_source = userId\<close> and the selection of the five columns.\<close>

definition assignment_rows :: "joined_user list \<Rightarrow> user_roles list \<Rightarrow> assignment_row list" where
  "assignment_rows users_df all_user_roles_df =
     map (\<lambda>(u, r). \<lparr>a_email = j_email u, a_tenantId = j_tenantId u,
                     a_id_source = j_id_source u, a_id_dest = j_id_dest u,
                     a_roleIds = Some (ur_roleIds r)\<rparr>)
       (merge_inner j_id_source ur_userId users_df all_user_roles_df)"

text \<open>
  \<open>migrate_users\<close> after the two fetches. A frame built from an empty list of role records
  has no \<open>roleIds\<close> column, which raises \<open>KeyError\<close> once the translations are fetched.
  When a role record carries a \<open>tenantId\<close>, both frames of the inner merge have that
  column, the merge renames them \<open>tenantId_x\<close> and \<open>tenantId_y\<close>, and the selection of
  the column \<open>tenantId\<close> raises \<open>KeyError\<close>.
\<close>

definition migrate_users_frames ::
  "'s env \<Rightarrow> client \<Rightarrow> client \<Rightarrow> user list \<Rightarrow> user list \<Rightarrow> 's world \<Rightarrow>
   (error + unit) \<times> 's world" where
  "migrate_users_frames env src dst source_users destination_users w =
     (case merge_users source_users destination_users of
        Inl e \<Rightarrow> (Inl e, w)
      | Inr users_df \<Rightarrow>
          (case get_all_user_roles env src users_df w of
             (Inl e, w1) \<Rightarrow> (Inl e, w1)
           | (Inr all_user_roles, w1) \<Rightarrow>
               (case get_role_id_translations env src dst w1 of
                  (Inl e, w2) \<Rightarrow> (Inl e, w2)
                | (Inr role_id_translations, w2) \<Rightarrow>
                    if all_user_roles = [] then (Inl (KeyError ''roleIds''), w2)
                    else
                      (case apply_translate role_id_translations all_user_roles w2 of
                         (all_user_roles_df, w3) \<Rightarrow>
                           if \<exists>r \<in> set all_user_roles. ur_tenantId r \<noteq> None
                           then (Inl (KeyError ''tenantId''), w3)
                           else
                             assign_user_roles env dst
                               (assignment_rows users_df all_user_roles_df) w3))))"


section \<open>Categories and permissions\<close>

text \<open>
  \<open>get_permissions\<close> and \<open>get_categories\<close> return the decoded body as it is, whatever
  its shape; the model gives its items, which is all the callers read. Only an error of the
  request, or a response without a JSON body, is caught and gives the empty list.
\<close>

definition get_permissions ::
  "'s env \<Rightarrow> client \<Rightarrow> 's world \<Rightarrow> (error + item list) \<times> 's world" where
  "get_permissions env c w =
     (case get_headers env c w of
        (Inl e, w1) \<Rightarrow> (Inl e, w1)
      | (Inr hdrs, w1) \<Rightarrow>
          (case make_request_with_rate_limiting env
                  (get_request hdrs (base_url c @ ''/identity/resources/permissions/v1'') []) w1 of
             (Inl e, w2) \<Rightarrow> (Inr [], log ''Error fetching permissions'' w2)
           | (Inr r, w2) \<Rightarrow>
               (case items_of (payload r) of
                  None \<Rightarrow> (Inr [], log ''Error fetching permissions'' w2)
                | Some permissions \<Rightarrow> (Inr permissions, w2))))"

text \<open>
  The list comprehension of \<open>create_permissions\<close>: the permissions whose \<open>categoryId\<close> is
  truthy, with the defaults of \<open>p.get(...)\<close>.
\<close>

definition truthy :: "string option \<Rightarrow> bool" where
  "truthy x = (case x of None \<Rightarrow> False | Some s \<Rightarrow> s \<noteq> [])"

definition permission_datum :: "permission \<Rightarrow> permission_data" where
  "permission_datum p =
     \<lparr>pd_name = p_name p,
      pd_description = (case p_description p of None \<Rightarrow> [] | Some d \<Rightarrow> d),
      pd_categoryId = (case p_categoryId p of None \<Rightarrow> [] | Some i \<Rightarrow> i),
      pd_key = p_key p,
      pd_assignmentType = (case p_assignmentType p of None \<Rightarrow> ''Admin'' | Some a \<Rightarrow> a)\<rparr>"

definition permissions_data :: "permission list \<Rightarrow> permission_data list" where
  "permissions_data permissions =
     map permission_datum (filter (\<lambda>p. truthy (p_categoryId p)) permissions)"

definition create_permissions ::
  "'s env \<Rightarrow> client \<Rightarrow> permission list \<Rightarrow> 's world \<Rightarrow> (error + unit) \<times> 's world" where
  "create_permissions env c permissions w =
     (case get_headers env c (log ''Creating permissions'' w) of
        (Inl e, w1) \<Rightarrow> (Inl e, w1)
      | (Inr hdrs, w1) \<Rightarrow>
          (case make_request_with_rate_limiting env
                  (post_request hdrs (base_url c @ ''/identity/resources/permissions/v1'') None
                     (PermissionsBody (permissions_data permissions))) w1 of
             (Inl e, w2) \<Rightarrow> (Inr (), log ''Error creating permissions'' w2)
           | (Inr r, w2) \<Rightarrow> (Inr (), w2)))"

definition get_categories ::
  "'s env \<Rightarrow> client \<Rightarrow> 's world \<Rightarrow> (error + item list) \<times> 's world" where
  "get_categories env c w =
     (case get_headers env c w of
        (Inl e, w1) \<Rightarrow> (Inl e, w1)
      | (Inr hdrs, w1) \<Rightarrow>
          (case make_request_with_rate_limiting env
                  (get_request hdrs
                     (base_url c @ ''/identity/resources/permissions/v1/categories'') []) w1 of
             (Inl e, w2) \<Rightarrow> (Inr [], log ''Error fetching categories'' w2)
           | (Inr r, w2) \<Rightarrow>
               (case items_of (payload r) of
                  None \<Rightarrow> (Inr [], log ''Error fetching categories'' w2)
                | Some categories \<Rightarrow> (Inr categories, w2))))"

definition category_post :: "client \<Rightarrow> string \<Rightarrow> string \<Rightarrow> string \<Rightarrow> request" where
  "category_post c hdrs name description =
     post_request hdrs (base_url c @ ''/identity/resources/permissions/v1/categories'') None
       (CategoryBody name description)"

definition category_request :: "client \<Rightarrow> string \<Rightarrow> category \<Rightarrow> request" where
  "category_request c hdrs cat =
     category_post c hdrs (c_name cat)
       (case c_description cat of None \<Rightarrow> [] | Some d \<Rightarrow> d)"

text \<open>
  The loop of \<open>create_categories\<close>: \<open>category['name']\<close> and
  \<open>category.get('description', '')\<close> are read before the \<open>try\<close>, so their errors leave
  the loop; an error of the request is caught and logged.
\<close>

fun create_categories_loop ::
  "'s env \<Rightarrow> client \<Rightarrow> string \<Rightarrow> item list \<Rightarrow> 's world \<Rightarrow> (error + unit) \<times> 's world" where
  "create_categories_loop env c hdrs [] w = (Inr (), w)"
| "create_categories_loop env c hdrs (category # categories) w =
     (case item_name category of
        Inl e \<Rightarrow> (Inl e, w)
      | Inr name \<Rightarrow>
          (case item_description category of
             Inl e \<Rightarrow> (Inl e, w)
           | Inr description \<Rightarrow>
               (case make_request_with_rate_limiting env
                       (category_post c hdrs name description) w of
                  (Inl e, w') \<Rightarrow>
                    create_categories_loop env c hdrs categories
                      (log (''Error creating category '' @ name) w')
                | (Inr r, w') \<Rightarrow> create_categories_loop env c hdrs categories w')))"

definition create_categories ::
  "'s env \<Rightarrow> client \<Rightarrow> item list \<Rightarrow> 's world \<Rightarrow> (error + unit) \<times> 's world" where
  "create_categories env c categories w =
     (case get_headers env c (log ''Creating categories'' w) of
        (Inl e, w1) \<Rightarrow> (Inl e, w1)
      | (Inr hdrs, w1) \<Rightarrow> create_categories_loop env c hdrs categories w1)"

text \<open>
  The dictionary comprehension of \<open>migrate_settings\<close>: each source category id is mapped to
  the id of the first destination category of the same name, or to \<open>None\<close>. For a source
  item the key \<open>src_cat['id']\<close> is read first; the generator then reads, for each
  destination item in turn, \<open>dest_cat['name']\<close>, \<open>src_cat['name']\<close> and, at the first
  match, \<open>dest_cat['id']\<close>.
\<close>

fun find_destination_id :: "item list \<Rightarrow> item \<Rightarrow> error + string option" where
  "find_destination_id [] src_cat = Inr None"
| "find_destination_id (dest_cat # rest) src_cat =
     (case item_name dest_cat of
        Inl e \<Rightarrow> Inl e
      | Inr dest_name \<Rightarrow>
          (case item_name src_cat of
             Inl e \<Rightarrow> Inl e
           | Inr src_name \<Rightarrow>
               if dest_name = src_name then
                 (case item_id dest_cat of Inl e \<Rightarrow> Inl e | Inr i \<Rightarrow> Inr (Some i))
               else find_destination_id rest src_cat))"

fun category_mapping_loop ::
  "item list \<Rightarrow> item list \<Rightarrow> (string \<times> string option) list \<Rightarrow>
   error + (string \<times> string option) list" where
  "category_mapping_loop destination_categories [] d = Inr d"
| "category_mapping_loop destination_categories (src_cat # rest) d =
     (case item_id src_cat of
        Inl e \<Rightarrow> Inl e
      | Inr k \<Rightarrow>
          (case find_destination_id destination_categories src_cat of
             Inl e \<Rightarrow> Inl e
           | Inr v \<Rightarrow> category_mapping_loop destination_categories rest (AList.update k v d)))"

definition category_mapping ::
  "item list \<Rightarrow> item list \<Rightarrow> error + (string \<times> string option) list" where
  "category_mapping source_categories destination_categories =
     category_mapping_loop destination_categories source_categories []"

definition mapping_get :: "(string \<times> string option) list \<Rightarrow> string option \<Rightarrow> string option" where
  "mapping_get d k =
     (case k of
        None \<Rightarrow> None
      | Some i \<Rightarrow> (case map_of d i of None \<Rightarrow> None | Some v \<Rightarrow> v))"

text \<open>
  The loop of \<open>migrate_settings\<close> over the source permissions: \<open>permission['categoryId']\<close>
  is read and rewritten in place, outside any \<open>try\<close>. Only a permission object has the
  key, so the list that reaches \<open>create_permissions\<close> is a list of permissions.
\<close>

fun rewrite_category_ids ::
  "(string \<times> string option) list \<Rightarrow> item list \<Rightarrow> 's world \<Rightarrow>
   (error + permission list) \<times> 's world" where
  "rewrite_category_ids m [] w = (Inr [], w)"
| "rewrite_category_ids m (PermissionItem p # rest) w =
     (let p' = p\<lparr>p_categoryId := mapping_get m (p_categoryId p)\<rparr>;
          w1 = (if truthy (p_categoryId p') then w
                else log (''Category ID for permission '' @ p_name p @ '' not found. Skipping.'') w)
      in case rewrite_category_ids m rest w1 of
           (Inl e, w2) \<Rightarrow> (Inl e, w2)
         | (Inr out, w2) \<Rightarrow> (Inr (p' # out), w2))"
| "rewrite_category_ids m (x # rest) w =
     (case item_categoryId x of
        Inl e \<Rightarrow> (Inl e, w)
      | Inr i \<Rightarrow> (Inl (KeyError ''categoryId''), w))"

definition migrate_settings ::
  "'s env \<Rightarrow> client \<Rightarrow> client \<Rightarrow> 's world \<Rightarrow> (error + unit) \<times> 's world" where
  "migrate_settings env src dst w =
     (case get_categories env src (log ''Starting settings migration'' w) of
        (Inl e, w1) \<Rightarrow> (Inl e, w1)
      | (Inr source_categories, w1) \<Rightarrow>
          (case create_categories env dst source_categories w1 of
             (Inl e, w2) \<Rightarrow> (Inl e, w2)
           | (Inr u, w2) \<Rightarrow>
               (case get_categories env dst w2 of
                  (Inl e, w3) \<Rightarrow> (Inl e, w3)
                | (Inr destination_categories, w3) \<Rightarrow>
                    (case category_mapping source_categories destination_categories of
                       Inl e \<Rightarrow> (Inl e, w3)
                     | Inr mapping \<Rightarrow>
                         (case get_permissions env src w3 of
                            (Inl e, w4) \<Rightarrow> (Inl e, w4)
                          | (Inr source_permissions, w4) \<Rightarrow>
                              (case rewrite_category_ids mapping source_permissions w4 of
                                 (Inl e, w5) \<Rightarrow> (Inl e, w5)
                               | (Inr permissions, w5) \<Rightarrow>
                                   create_permissions env dst permissions w5))))))"

section \<open>The CSV credential merge\<close>

text \<open>\<open>groupby('userId').tail(1)\<close>: the last row of each user id, in the frame's order.\<close>

fun groupby_tail1 :: "csv_hash list \<Rightarrow> csv_hash list" where
  "groupby_tail1 [] = []"
| "groupby_tail1 (r # rs) =
     (if ch_userId r \<in> set (map ch_userId rs) then groupby_tail1 rs
      else r # groupby_tail1 rs)"

text \<open>
  \<open>sort_values('createdAt')\<close> uses pandas' default sort, which is not stable: it is the
  parameter \<open>sort_values\<close>, some sort by \<open>createdAt\<close>.
\<close>

definition latest_hashes :: "(csv_hash list \<Rightarrow> csv_hash list) \<Rightarrow> csv_hash list \<Rightarrow> csv_hash list" where
  "latest_hashes sort_values hashes_df = groupby_tail1 (sort_values hashes_df)"

definition final_df ::
  "(csv_hash list \<Rightarrow> csv_hash list) \<Rightarrow> csv_user list \<Rightarrow> csv_hash list \<Rightarrow>
   (csv_user \<times> csv_hash option) list" where
  "final_df sort_values users_df hashes_df =
     merge_left cu_userId ch_userId users_df (latest_hashes sort_values hashes_df)"

definition select_columns :: "csv_user \<times> csv_hash option \<Rightarrow> credential_record" where
  "select_columns row =
     \<lparr>cr_name = cu_name (fst row), cr_email = cu_email (fst row),
      cr_tenantId = cu_tenantId (fst row), cr_hash = map_option ch_hash (snd row),
      cr_phone = cu_phone (fst row), cr_provider = cu_provider (fst row),
      cr_verified = cu_verified (fst row)\<rparr>"

definition create_migration_csv ::
  "(csv_hash list \<Rightarrow> csv_hash list) \<Rightarrow> 's env \<Rightarrow> 's world \<Rightarrow> (error + unit) \<times> 's world" where
  "create_migration_csv sort_values env w =
     (let w0 = log ''Creating migration CSV'' w in
      case env_read_users_csv env (server w0) of
        Inl e \<Rightarrow> (Inl e, if e = FileNotFoundError then log ''File not found'' w0 else w0)
      | Inr users_df \<Rightarrow>
          (case env_read_hashes_csv env (server w0) of
             Inl e \<Rightarrow> (Inl e, if e = FileNotFoundError then log ''File not found'' w0 else w0)
           | Inr hashes_df \<Rightarrow>
               (Inr (), w0\<lparr>csv_written :=
                             Some (map select_columns
                                     (final_df sort_values users_df hashes_df))\<rparr>)))"

section \<open>The orchestrator\<close>


section \<open>Servers and inputs of the examples\<close>

definition empty_world :: "nat world" where
  "empty_world = \<lparr>server = 0, trace = [], logs = [], csv_written = None\<rparr>"

text \<open>
  A server that answers 429 with \<open>Retry-After: 2\<close> to the first three requests and 200
  afterwards; its state counts the requests.
\<close>

definition throttling_env :: "nat env" where
  "throttling_env =
     \<lparr>env_get_headers = (\<lambda>s c. (Inr ''token'', s)),
      env_request = (\<lambda>s rq.
         (Inr \<lparr>status_code = (if s < 3 then 429 else 200),
               retry_after = (if s < 3 then Seconds 2 else Absent),
               payload = NoContent\<rparr>, Suc s)),
      env_read_users_csv = (\<lambda>s. Inr []),
      env_read_hashes_csv = (\<lambda>s. Inr [])\<rparr>"

text \<open>
  The requests of a paginated fetch of the given pages: the endpoint with the caller's
  parameters, then each next link after the base address, with no parameters.
\<close>

fun page_requests ::
  "client \<Rightarrow> string \<Rightarrow> string \<Rightarrow> (string \<times> string) list \<Rightarrow> ('a list \<times> string option) list \<Rightarrow>
   request list" where
  "page_requests c hdrs url params [] = []"
| "page_requests c hdrs url params ((its, nxt) # ps) =
     get_request hdrs url params #
     (case nxt of None \<Rightarrow> [] | Some l \<Rightarrow> page_requests c hdrs (base_url c @ l) [] ps)"

text \<open>
  A server, in state \<open>s\<close>, serves the pages to a client that starts at \<open>url\<close>: it answers
  each request of the walk with a success status and the next page, every page but the last
  has a next link, and the last has none (or an empty one).
\<close>

fun serves ::
  "'s env \<Rightarrow> client \<Rightarrow> string \<Rightarrow> 'a decoder \<Rightarrow> 's \<Rightarrow> string \<Rightarrow> (string \<times> string) list \<Rightarrow>
   ('a list \<times> string option) list \<Rightarrow> bool" where
  "serves env c hdrs dec s url params [] = False"
| "serves env c hdrs dec s url params ((its, nxt) # ps) =
     (case env_request env s (get_request hdrs url params) of
        (Inl e, s') \<Rightarrow> False
      | (Inr r, s') \<Rightarrow>
          status_code r < 400 \<and> dec (payload r) = Some (its, nxt) \<and>
          (if ps = [] then nxt = None \<or> nxt = Some []
           else (case nxt of
                   None \<Rightarrow> False
                 | Some l \<Rightarrow> l \<noteq> [] \<and> serves env c hdrs dec s' (base_url c @ l) [] ps)))"

text \<open>A server with two pages of tenants; its state counts the requests.\<close>

definition two_page_env :: "nat env" where
  "two_page_env =
     \<lparr>env_get_headers = (\<lambda>s c. (Inr ''token'', s)),
      env_request = (\<lambda>s rq.
         (Inr \<lparr>status_code = 200, retry_after = Absent,
               payload =
                 (if s = 0 then
                    TenantsPage [\<lparr>t_tenantId = ''t1'', t_name = ''One'', t_metadata = None\<rparr>]
                      (Some ''/tenants/resources/tenants/v2?_offset=1'')
                  else
                    TenantsPage [\<lparr>t_tenantId = ''t2'', t_name = ''Two'', t_metadata = None\<rparr>]
                      None)\<rparr>, Suc s)),
      env_read_users_csv = (\<lambda>s. Inr []),
      env_read_hashes_csv = (\<lambda>s. Inr [])\<rparr>"

text \<open>
  A full-collection fetch fails with a remote error other than a 429: the credential is
  available, and the request raises or is answered with a status from 400 to 599 other
  than 429.
\<close>

definition fetch_fails :: "'s env \<Rightarrow> client \<Rightarrow> string \<Rightarrow> 's world \<Rightarrow> bool" where
  "fetch_fails env c path w =
     (case get_headers env c w of
        (Inl e, w1) \<Rightarrow> False
      | (Inr hdrs, w1) \<Rightarrow>
          (case env_request env (server w1) (get_request hdrs (base_url c @ path) []) of
             (Inl e, s) \<Rightarrow> True
           | (Inr r, s) \<Rightarrow>
               400 \<le> status_code r \<and> status_code r < 600 \<and> status_code r \<noteq> 429))"

text \<open>A server that answers the first request with a list of roles and fails afterwards.\<close>

definition roles_then_failing_env :: "nat env" where
  "roles_then_failing_env =
     \<lparr>env_get_headers = (\<lambda>s c. (Inr ''token'', s)),
      env_request = (\<lambda>s rq.
         (if s = 0 then
            Inr \<lparr>status_code = 200, retry_after = Absent,
                 payload = RolesList [\<lparr>r_key = ''admin'', r_id = ''r1''\<rparr>]\<rparr>
          else Inr \<lparr>status_code = 500, retry_after = Absent, payload = NoContent\<rparr>, Suc s)),
      env_read_users_csv = (\<lambda>s. Inr []),
      env_read_hashes_csv = (\<lambda>s. Inr [])\<rparr>"

definition source_client :: client where
  "source_client = \<lparr>base_url = ''https://api.frontegg.com''\<rparr>"

definition destination_client :: client where
  "destination_client = \<lparr>base_url = ''https://api.us.frontegg.com''\<rparr>"

definition after_one_request :: "nat world" where
  "after_one_request =
     \<lparr>server = 1,
      trace = [get_request ''token'' ''https://api.frontegg.com/identity/resources/roles/v1'' []],
      logs = [], csv_written = None\<rparr>"

text \<open>What a request says, apart from the credential it carries.\<close>

definition request_line :: "request \<Rightarrow> http_method \<times> string \<times> string option \<times> body" where
  "request_line rq = (rq_method rq, rq_url rq, rq_tenant rq, rq_body rq)"

text \<open>
  What a run from the state \<open>w\<close> to the state \<open>w'\<close> has sent: the lines of the requests
  that it has added to the trace. \<open>sends w ls w'\<close>: the trace of \<open>w'\<close> is the trace of \<open>w\<close>
  followed by requests of the lines \<open>ls\<close>, in that order.
\<close>

definition new_requests ::
  "'s world \<Rightarrow> 's world \<Rightarrow> (http_method \<times> string \<times> string option \<times> body) list" where
  "new_requests w w' = map request_line (drop (length (trace w)) (trace w'))"

definition sends ::
  "'s world \<Rightarrow> (http_method \<times> string \<times> string option \<times> body) list \<Rightarrow> 's world \<Rightarrow> bool" where
  "sends w ls w' \<longleftrightarrow> take (length (trace w)) (trace w') = trace w \<and> new_requests w w' = ls"

text \<open>The lines of the requests of the stages, item by item.\<close>

definition get_line :: "string \<Rightarrow> http_method \<times> string \<times> string option \<times> body" where
  "get_line url = (GET, url, None, NoBody)"




definition category_line ::
  "client \<Rightarrow> category \<Rightarrow> http_method \<times> string \<times> string option \<times> body" where
  "category_line c cat =
     (POST, base_url c @ ''/identity/resources/permissions/v1/categories'', None,
      CategoryBody (c_name cat) (case c_description cat of None \<Rightarrow> [] | Some d \<Rightarrow> d))"

definition permissions_line ::
  "client \<Rightarrow> permission_data list \<Rightarrow> http_method \<times> string \<times> string option \<times> body" where
  "permissions_line c pds =
     (POST, base_url c @ ''/identity/resources/permissions/v1'', None, PermissionsBody pds)"

definition expected_assignment ::
  "client \<Rightarrow> assignment_row \<Rightarrow> http_method \<times> string \<times> string option \<times> body" where
  "expected_assignment c row =
     (POST,
      base_url c @ ''/identity/resources/users/v1/'' @ format_cell (a_id_dest row) @ ''/roles'',
      Some (a_tenantId row),
      RoleIdsBody (case a_roleIds row of None \<Rightarrow> [] | Some ids \<Rightarrow> ids))"

text \<open>
  A server for the replay of one user's roles: it answers the first request with the role
  record of user \<open>s1\<close>, the second with the source roles, the third with the destination
  roles, and every later request with 200.
\<close>

definition replay_env :: "nat env" where
  "replay_env =
     \<lparr>env_get_headers = (\<lambda>s c. (Inr ''token'', s)),
      env_request = (\<lambda>s rq.
         (Inr \<lparr>status_code = 200, retry_after = Absent,
               payload =
                 (if s = 0 then UserRolesList [\<lparr>ur_userId = ''s1'', ur_roleIds = [''r1''],
                                       ur_tenantId = None\<rparr>]
                  else if s = 1 then RolesList [\<lparr>r_key = ''admin'', r_id = ''r1''\<rparr>]
                  else if s = 2 then RolesList [\<lparr>r_key = ''viewer'', r_id = ''d7''\<rparr>]
                  else NoContent)\<rparr>, Suc s)),
      env_read_users_csv = (\<lambda>s. Inr []),
      env_read_hashes_csv = (\<lambda>s. Inr [])\<rparr>"

definition ann :: user where
  "ann = \<lparr>u_id = ''s1'', u_email = ''Ann@Example.com'', u_tenantId = ''t1''\<rparr>"

definition bob :: user where
  "bob = \<lparr>u_id = ''d1'', u_email = ''bob@example.com'', u_tenantId = ''t1''\<rparr>"

definition unmatched_row :: assignment_row where
  "unmatched_row =
     \<lparr>a_email = ''ann@example.com'', a_tenantId = ''t1'', a_id_source = ''s1'',
      a_id_dest = None, a_roleIds = Some []\<rparr>"

text \<open>The destination users with the email (lower-cased) and the tenant of a source user.\<close>

definition matching_users :: "user \<Rightarrow> user list \<Rightarrow> user list" where
  "matching_users u vs =
     filter (\<lambda>v. lower (u_email v) = lower (u_email u) \<and> u_tenantId v = u_tenantId u) vs"

definition ann_lower :: user where
  "ann_lower = \<lparr>u_id = ''d1'', u_email = ''ann@example.com'', u_tenantId = ''t1''\<rparr>"

definition ann_upper :: user where
  "ann_upper = \<lparr>u_id = ''d2'', u_email = ''ANN@example.com'', u_tenantId = ''t1''\<rparr>"

definition ann_unmatched :: joined_user where
  "ann_unmatched =
     \<lparr>j_email = ''ann@example.com'', j_tenantId = ''t1'', j_id_source = ''s1'',
      j_id_dest = None\<rparr>"

text \<open>
  The translation of one permission as the claim words it: the source category of the
  permission's \<open>categoryId\<close> (the last one listed, should several share the id), the first
  destination category of the same name, and the permission with that category's id; no
  result when either is missing or the destination id is empty.
\<close>

definition translated_permission ::
  "category list \<Rightarrow> category list \<Rightarrow> permission \<Rightarrow> permission_data option" where
  "translated_permission source_categories destination_categories p =
     (case p_categoryId p of
        None \<Rightarrow> None
      | Some cid \<Rightarrow>
          (case find (\<lambda>sc. c_id sc = cid) (rev source_categories) of
             None \<Rightarrow> None
           | Some sc \<Rightarrow>
               (case find (\<lambda>dc. c_name dc = c_name sc) destination_categories of
                  None \<Rightarrow> None
                | Some dc \<Rightarrow>
                    if c_id dc = [] then None
                    else Some \<lparr>pd_name = p_name p,
                               pd_description =
                                 (case p_description p of None \<Rightarrow> [] | Some d \<Rightarrow> d),
                               pd_categoryId = c_id dc,
                               pd_key = p_key p,
                               pd_assignmentType =
                                 (case p_assignmentType p of
                                    None \<Rightarrow> ''Admin''
                                  | Some a \<Rightarrow> a)\<rparr>)))"

text \<open>
  The dictionary of \<open>migrate_settings\<close> when both fetched lists are lists of category
  objects: no key is missing, and the comprehension is a fold of updates.
\<close>

definition category_dict ::
  "category list \<Rightarrow> category list \<Rightarrow> (string \<times> string option) list" where
  "category_dict source_categories destination_categories =
     fold (\<lambda>src_cat d.
             AList.update (c_id src_cat)
               (map_option c_id
                  (find (\<lambda>dest_cat. c_name dest_cat = c_name src_cat) destination_categories))
               d)
       source_categories []"

definition billing_source :: category where
  "billing_source = \<lparr>c_id = ''c1'', c_name = ''Billing'', c_description = None\<rparr>"

definition billing_destination :: category where
  "billing_destination = \<lparr>c_id = ''c2'', c_name = ''Billing'', c_description = None\<rparr>"

definition read_invoices :: permission where
  "read_invoices =
     \<lparr>p_name = ''Read invoices'', p_description = None, p_categoryId = Some ''c1'',
      p_key = ''invoices.read'', p_assignmentType = None\<rparr>"

definition orphan_permission :: permission where
  "orphan_permission =
     \<lparr>p_name = ''Orphan'', p_description = None, p_categoryId = Some ''c9'',
      p_key = ''orphan'', p_assignmentType = None\<rparr>"

text \<open>
  A server for the settings stage: it answers the first request with the source category
  Billing, the third with the destination category Billing, the fourth with the two source
  permissions, and the others (the two POSTs) with 200 and no body.
\<close>

definition settings_env :: "nat env" where
  "settings_env =
     \<lparr>env_get_headers = (\<lambda>s c. (Inr ''token'', s)),
      env_request = (\<lambda>s rq.
         (Inr \<lparr>status_code = 200, retry_after = Absent,
               payload = (if s = 0 then CategoriesList [billing_source]
                          else if s = 2 then CategoriesList [billing_destination]
                          else if s = 3 then PermissionsList [read_invoices, orphan_permission]
                          else NoContent)\<rparr>, Suc s)),
      env_read_users_csv = (\<lambda>s. Inr []),
      env_read_hashes_csv = (\<lambda>s. Inr [])\<rparr>"

text \<open>
  A server that answers every request with 200 and a page of tenants, a JSON object where
  the settings stage expects a list.
\<close>

definition object_env :: "nat env" where
  "object_env =
     \<lparr>env_get_headers = (\<lambda>s c. (Inr ''token'', s)),
      env_request = (\<lambda>s rq.
         (Inr \<lparr>status_code = 200, retry_after = Absent,
               payload = TenantsPage [] None\<rparr>, Suc s)),
      env_read_users_csv = (\<lambda>s. Inr []),
      env_read_hashes_csv = (\<lambda>s. Inr [])\<rparr>"

definition carol :: csv_user where
  "carol = \<lparr>cu_userId = ''u1'', cu_name = ''Carol'', cu_email = ''carol@example.com'',
            cu_tenantId = ''t1'', cu_phone = [], cu_provider = ''local'',
            cu_verified = ''true''\<rparr>"

definition dave :: csv_user where
  "dave = \<lparr>cu_userId = ''u2'', cu_name = ''Dave'', cu_email = ''dave@example.com'',
           cu_tenantId = ''t1'', cu_phone = [], cu_provider = ''local'',
           cu_verified = ''true''\<rparr>"

definition hash_at :: "int \<Rightarrow> csv_hash" where
  "hash_at t = \<lparr>ch_userId = ''u1'', ch_hash = (if t = 3 then ''newest'' else ''older''),
               ch_createdAt = t\<rparr>"

text \<open>
  A destination that stores categories: its state is the list of its categories; a POST of
  a category appends it under a fresh id, and every request is answered with 200 and the
  list.
\<close>

definition category_store_env :: "category list env" where
  "category_store_env =
     \<lparr>env_get_headers = (\<lambda>s c. (Inr ''token'', s)),
      env_request = (\<lambda>s rq.
         (case rq_body rq of
            CategoryBody n d \<Rightarrow>
              (let s' = s @ [\<lparr>c_id = replicate (Suc (length s)) (CHR ''c''), c_name = n,
                               c_description = Some d\<rparr>]
               in (Inr \<lparr>status_code = 200, retry_after = Absent,
                        payload = CategoriesList s'\<rparr>, s'))
          | _ \<Rightarrow> (Inr \<lparr>status_code = 200, retry_after = Absent,
                        payload = CategoriesList s\<rparr>, s))),
      env_read_users_csv = (\<lambda>s. Inr []),
      env_read_hashes_csv = (\<lambda>s. Inr [])\<rparr>"

definition empty_store :: "category list world" where
  "empty_store = \<lparr>server = [], trace = [], logs = [], csv_written = None\<rparr>"

definition tenant_one :: tenant where
  "tenant_one = \<lparr>t_tenantId = ''t1'', t_name = ''One'', t_metadata = None\<rparr>"




text \<open>The credential is always available: \<open>get_headers\<close> never raises.\<close>

definition headers_ok :: "'s env \<Rightarrow> bool" where
  "headers_ok env = (\<forall>s c. \<exists>h s'. env_get_headers env s c = (Inr h, s'))"


section \<open>Properties of the rate-limited request\<close>

declare make_request_with_rate_limiting.simps [simp del]

lemma make_request_once:
  "make_request_with_rate_limiting env rq w =
     (case session_request env rq w of
        (Inl e, w') \<Rightarrow> (Inl e, w')
      | (Inr r, w') \<Rightarrow>
          if status_code r = 429 then
            (case retry_after_int (retry_after r) of
               Inl e \<Rightarrow> (Inl e, w')
             | Inr n \<Rightarrow> (Inl (NameError ''time''), w'))
          else
            (case raise_for_status r of
               Inl e \<Rightarrow> (Inl e, w')
             | Inr u \<Rightarrow> (Inr r, w')))"
  by (subst make_request_with_rate_limiting.simps)
     (simp add: time_sleep_def split: prod.splits sum.splits)

text \<open>
  C3. The claim is that a 429 response is never surfaced to the caller: the client waits for
  the Retry-After duration and sends the same request again until the response is not a 429.
  Against the server that answers 429 with \<open>Retry-After: 2\<close> three times and then 200, the
  call sends one request and raises \<open>NameError\<close> at \<open>time.sleep\<close>: the module \<open>time\<close> is
  not imported.
\<close>

theorem rate_limited_request_raises:
  "make_request_with_rate_limiting throttling_env
     (get_request ''token'' ''https://api.frontegg.com/identity/resources/roles/v1'' [])
     empty_world =
   (Inl (NameError ''time''),
    \<lparr>server = 1,
     trace = [get_request ''token'' ''https://api.frontegg.com/identity/resources/roles/v1'' []],
     logs = [], csv_written = None\<rparr>)"
  by (simp add: make_request_once session_request_def throttling_env_def empty_world_def
      retry_after_int_def)

section \<open>Properties of the role translation\<close>

lemma translate_role_ids_fst:
  "fst (translate_role_ids tr ids w) =
     filter (\<lambda>d. d \<noteq> []) (List.map_filter (map_of tr) ids)"
  by (induction ids arbitrary: w)
     (auto simp: case_prod_beta split: option.splits)

lemma translate_role_ids_logs:
  "logs (snd (translate_role_ids tr ids w)) =
     logs w @ map role_diagnostic (filter (\<lambda>i. \<not> truthy (map_of tr i)) ids)"
  by (induction ids arbitrary: w)
     (auto simp: truthy_def log_def case_prod_beta split: option.splits)

lemma translate_role_ids_frame:
  "server (snd (translate_role_ids tr ids w)) = server w \<and>
   trace (snd (translate_role_ids tr ids w)) = trace w \<and>
   csv_written (snd (translate_role_ids tr ids w)) = csv_written w"
  by (induction ids arbitrary: w)
     (auto simp: log_def case_prod_beta split: option.splits)

lemma map_filter_ran: "set (List.map_filter m ids) \<subseteq> ran m"
  by (auto simp: map_filter_def ran_def)

lemma length_map_filter_le:
  "length (List.map_filter m ids) \<le> length (filter (\<lambda>i. m i \<noteq> None) ids)"
  by (simp add: map_filter_def)

text \<open>
  C5. Role-id translation is total and only loses ids: \<open>translate_role_ids\<close> has no raising
  branch on a translation dictionary and a list of ids; its output is, in order, the images
  of the input ids that the dictionary maps (to a non-empty id), so it is no longer than the
  input (nor than the input ids present in the dictionary), every output id is a value of the
  dictionary, an input id absent from the dictionary contributes nothing and leaves its
  diagnostic in the log, and nothing else of the state changes.
\<close>

theorem translate_role_ids_total:
  "fst (translate_role_ids tr ids w) =
     filter (\<lambda>d. d \<noteq> []) (List.map_filter (map_of tr) ids) \<and>
   length (fst (translate_role_ids tr ids w)) \<le>
     length (filter (\<lambda>i. map_of tr i \<noteq> None) ids) \<and>
   length (fst (translate_role_ids tr ids w)) \<le> length ids \<and>
   set (fst (translate_role_ids tr ids w)) \<subseteq> ran (map_of tr) \<and>
   logs (snd (translate_role_ids tr ids w)) =
     logs w @ map role_diagnostic (filter (\<lambda>i. \<not> truthy (map_of tr i)) ids) \<and>
   (\<forall>i \<in> set ids. map_of tr i = None \<longrightarrow>
      role_diagnostic i \<in> set (logs (snd (translate_role_ids tr ids w)))) \<and>
   server (snd (translate_role_ids tr ids w)) = server w \<and>
   trace (snd (translate_role_ids tr ids w)) = trace w"
proof -
  let ?out = "fst (translate_role_ids tr ids w)"
  have a: "?out = filter (\<lambda>d. d \<noteq> []) (List.map_filter (map_of tr) ids)"
    by (rule translate_role_ids_fst)
  have b: "length ?out \<le> length (filter (\<lambda>i. map_of tr i \<noteq> None) ids)"
    unfolding a using length_map_filter_le[of "map_of tr" ids]
    by (meson le_trans length_filter_le)
  have c: "length ?out \<le> length ids"
    using b by (meson le_trans length_filter_le)
  have d: "set ?out \<subseteq> ran (map_of tr)"
    unfolding a using map_filter_ran[of "map_of tr" ids] by auto
  have e: "\<forall>i \<in> set ids. map_of tr i = None \<longrightarrow>
      role_diagnostic i \<in> set (logs (snd (translate_role_ids tr ids w)))"
    by (auto simp: translate_role_ids_logs truthy_def)
  show ?thesis
    using a b c d e translate_role_ids_logs[of tr ids w] translate_role_ids_frame[of tr ids w]
    by blast
qed

theorem translate_role_ids_total_witness:
  "fst (translate_role_ids [(''r1'', ''d9'')] [''r1'', ''r2''] empty_world) = [''d9''] \<and>
   logs (snd (translate_role_ids [(''r1'', ''d9'')] [''r1'', ''r2''] empty_world)) =
     [role_diagnostic ''r2'']"
  using translate_role_ids_total[of "[(''r1'', ''d9'')]" "[''r1'', ''r2'']" empty_world]
  by (simp add: truthy_def empty_world_def)

section \<open>Properties of the pagination\<close>

lemma paginate_None: "paginate env c hdrs dec None params items w = Some (Inr items, w)"
  by (subst paginate.simps) simp

lemma paginate_serves:
  "serves env c hdrs dec (server w) url params pages \<Longrightarrow> url \<noteq> [] \<Longrightarrow>
   \<exists>w'. paginate env c hdrs dec (Some url) params items w =
           Some (Inr (items @ concat (map fst pages)), w') \<and>
         trace w' = trace w @ page_requests c hdrs url params pages \<and>
         logs w' = logs w"
proof (induction pages arbitrary: url params items w)
  case Nil
  then show ?case by simp
next
  case (Cons p ps)
  obtain its nxt where p: "p = (its, nxt)" by (cases p)
  obtain out s' where rq: "env_request env (server w) (get_request hdrs url params) = (out, s')"
    by (cases "env_request env (server w) (get_request hdrs url params)")
  from Cons.prems(1) p rq obtain r where out: "out = Inr r"
    by (cases out) auto
  let ?w' = "w\<lparr>server := s', trace := trace w @ [get_request hdrs url params]\<rparr>"
  from Cons.prems(1) p rq out
  have st: "status_code r < 400" and dc: "dec (payload r) = Some (its, nxt)"
    by auto
  have mk: "make_request_with_rate_limiting env (get_request hdrs url params) w = (Inr r, ?w')"
    using st rq out by (simp add: make_request_once session_request_def raise_for_status_def)
  show ?case
  proof (cases "ps = []")
    case True
    with Cons.prems(1) p rq out have "nxt = None \<or> nxt = Some []" by auto
    then show ?thesis
      using mk dc True p Cons.prems(2)
      by (subst paginate.simps) (auto simp: paginate_None)
  next
    case False
    with Cons.prems(1) p rq out obtain l where l: "nxt = Some l" "l \<noteq> []"
      and sv: "serves env c hdrs dec s' (base_url c @ l) [] ps"
      by (cases nxt) auto
    have "serves env c hdrs dec (server ?w') (base_url c @ l) [] ps" using sv by simp
    from Cons.IH[OF this, of "items @ its"] l(2)
    obtain w'' where ih:
      "paginate env c hdrs dec (Some (base_url c @ l)) [] (items @ its) ?w' =
         Some (Inr ((items @ its) @ concat (map fst ps)), w'')"
      "trace w'' = trace ?w' @ page_requests c hdrs (base_url c @ l) [] ps"
      "logs w'' = logs ?w'"
      by auto
    show ?thesis
      using mk dc l ih p Cons.prems(2)
      by (subst paginate.simps) auto
  qed
qed

lemma length_page_requests:
  "serves env c hdrs dec s url params pages \<Longrightarrow>
   length (page_requests c hdrs url params pages) = length pages"
proof (induction pages arbitrary: url params s)
  case Nil
  then show ?case by simp
next
  case (Cons p ps)
  then show ?case
    by (cases p; cases ps) (auto split: prod.splits sum.splits option.splits if_splits)
qed

text \<open>
  C7. When the credential is available and the server serves \<open>N\<close> pages of which only the
  last has no next link, the paginated fetch returns, and returns the concatenation of the
  pages' items in page order; it sends \<open>N\<close> requests: the endpoint with the caller's query
  parameters, then each next link appended to the base address, with no parameters.
\<close>

theorem get_all_paginated_items_pages:
  assumes "env_get_headers env (server w) c = (Inr hdrs, s0)"
    and "endpoint \<noteq> []"
    and "serves env c hdrs dec s0 endpoint params pages"
  shows "\<exists>w'. get_all_paginated_items env c dec endpoint params w =
                 Some (Inr (concat (map fst pages)), w') \<and>
               trace w' = trace w @ page_requests c hdrs endpoint params pages \<and>
               length (page_requests c hdrs endpoint params pages) = length pages"
proof -
  have "serves env c hdrs dec (server (w\<lparr>server := s0\<rparr>)) endpoint params pages"
    using assms(3) by simp
  from paginate_serves[OF this assms(2), of "[]"] assms(1) length_page_requests[OF assms(3)]
  show ?thesis
    by (auto simp: get_all_paginated_items_def get_headers_def)
qed

theorem get_all_paginated_items_pages_witness:
  "\<exists>w'. get_all_paginated_items two_page_env \<lparr>base_url = ''https://api.frontegg.com''\<rparr>
           tenants_decoder ''https://api.frontegg.com/tenants/resources/tenants/v2''
           [(''_limit'', ''100'')] empty_world =
         Some (Inr [\<lparr>t_tenantId = ''t1'', t_name = ''One'', t_metadata = None\<rparr>,
                    \<lparr>t_tenantId = ''t2'', t_name = ''Two'', t_metadata = None\<rparr>], w') \<and>
        trace w' =
          [get_request ''token'' ''https://api.frontegg.com/tenants/resources/tenants/v2''
             [(''_limit'', ''100'')],
           get_request ''token''
             ''https://api.frontegg.com/tenants/resources/tenants/v2?_offset=1'' []]"
  using get_all_paginated_items_pages[of two_page_env empty_world
      "\<lparr>base_url = ''https://api.frontegg.com''\<rparr>" "''token''" 0
      "''https://api.frontegg.com/tenants/resources/tenants/v2''" tenants_decoder
      "[(''_limit'', ''100'')]"
      "[([\<lparr>t_tenantId = ''t1'', t_name = ''One'', t_metadata = None\<rparr>],
          Some ''/tenants/resources/tenants/v2?_offset=1''),
        ([\<lparr>t_tenantId = ''t2'', t_name = ''Two'', t_metadata = None\<rparr>], None)]"]
  by (simp add: two_page_env_def empty_world_def tenants_decoder_def)

section \<open>Properties of the fetches that swallow their errors\<close>

lemma make_request_trace:
  "trace (snd (make_request_with_rate_limiting env rq w)) = trace w @ [rq]"
  by (simp add: make_request_once session_request_def split: prod.splits sum.splits)


lemma get_headers_frame:
  "trace (snd (get_headers env c w)) = trace w \<and> logs (snd (get_headers env c w)) = logs w"
  by (simp add: get_headers_def split: prod.splits)

lemma headers_ok_get_headers:
  "headers_ok env \<Longrightarrow> \<exists>h w1. get_headers env c w = (Inr h, w1)"
  unfolding headers_ok_def get_headers_def
  by (metis (mono_tags, lifting) case_prod_conv)

lemma sendsI:
  "trace w' = trace w @ reqs \<Longrightarrow> map request_line reqs = ls \<Longrightarrow> sends w ls w'"
  by (simp add: sends_def new_requests_def)

lemma sendsD: "sends w ls w' \<Longrightarrow> \<exists>reqs. trace w' = trace w @ reqs \<and> map request_line reqs = ls"
  unfolding sends_def new_requests_def
  by (metis append_take_drop_id)


lemma sends_append:
  assumes "sends w as w'" and "sends w' bs w''"
  shows "sends w (as @ bs) w''"
proof -
  from sendsD[OF assms(1)] obtain ra where a: "trace w' = trace w @ ra" "map request_line ra = as"
    by auto
  from sendsD[OF assms(2)] obtain rb where b: "trace w'' = trace w' @ rb" "map request_line rb = bs"
    by auto
  from a b have "trace w'' = trace w @ (ra @ rb)" "map request_line (ra @ rb) = as @ bs"
    by simp_all
  then show ?thesis by (rule sendsI)
qed

lemma sends_from: "trace w0 = trace w \<Longrightarrow> sends w ls w' \<Longrightarrow> sends w0 ls w'"
  by (simp add: sends_def new_requests_def)

lemma fetch_fails_request:
  assumes "fetch_fails env c path w"
  obtains hdrs w1 e w2 where "get_headers env c w = (Inr hdrs, w1)"
    and "make_request_with_rate_limiting env (get_request hdrs (base_url c @ path) []) w1 = (Inl e, w2)"
proof -
  obtain r w1 where gh: "get_headers env c w = (r, w1)" by (cases "get_headers env c w")
  with assms obtain hdrs where r: "r = Inr hdrs" by (cases r) (auto simp: fetch_fails_def)
  let ?rq = "get_request hdrs (base_url c @ path) []"
  obtain out s where rq: "env_request env (server w1) ?rq = (out, s)"
    by (cases "env_request env (server w1) ?rq")
  have "\<exists>e w2. make_request_with_rate_limiting env ?rq w1 = (Inl e, w2)"
    using assms gh r rq
    by (cases out)
       (auto simp: fetch_fails_def make_request_once session_request_def raise_for_status_def)
  with gh r that show thesis by blast
qed

lemma get_roles_mapping_fails:
  "fetch_fails env c ''/identity/resources/roles/v1'' w \<Longrightarrow> fst (get_roles_mapping env c w) = Inr []"
  by (erule fetch_fails_request) (simp add: get_roles_mapping_def)

lemma get_categories_fails:
  "fetch_fails env c ''/identity/resources/permissions/v1/categories'' w \<Longrightarrow>
   fst (get_categories env c w) = Inr []"
  by (erule fetch_fails_request) (simp add: get_categories_def)

lemma get_permissions_fails:
  "fetch_fails env c ''/identity/resources/permissions/v1'' w \<Longrightarrow>
   fst (get_permissions env c w) = Inr []"
  by (erule fetch_fails_request) (simp add: get_permissions_def)

lemma role_id_translation_loop_empty:
  "fst (role_id_translation_loop [] source_roles tr w) = tr"
  by (induction source_roles arbitrary: w) auto

lemma get_role_id_translations_fails:
  assumes "get_roles_mapping env src w = (Inr source_roles, w1)"
    and "fetch_fails env dst ''/identity/resources/roles/v1'' w1"
  shows "fst (get_role_id_translations env src dst w) = Inr []"
proof -
  obtain r w2 where g: "get_roles_mapping env dst w1 = (r, w2)"
    by (cases "get_roles_mapping env dst w1")
  with get_roles_mapping_fails[OF assms(2)] have "r = Inr []" by simp
  with g assms(1) show ?thesis
    using role_id_translation_loop_empty[of source_roles "[]" w2]
    by (simp add: get_role_id_translations_def case_prod_beta)
qed

lemma translate_empty: "fst (translate_role_ids [] ids w) = []"
  by (induction ids arbitrary: w) auto

lemma apply_translate_empty:
  "fst (apply_translate [] rs w) = map (\<lambda>r. r\<lparr>ur_roleIds := []\<rparr>) rs"
  by (induction rs arbitrary: w) (auto simp: case_prod_beta translate_empty)

lemma assignment_rows_roleIds:
  "row \<in> set (assignment_rows users_df rs) \<Longrightarrow> \<exists>r \<in> set rs. a_roleIds row = Some (ur_roleIds r)"
  by (auto simp: assignment_rows_def merge_inner_def)

lemma assign_loop_trace:
  "\<exists>reqs. trace (snd (assign_user_roles_loop env c rows w)) = trace w @ reqs \<and>
     (\<forall>rq \<in> set reqs. \<exists>row \<in> set rows. \<exists>hdrs ids.
         a_roleIds row = Some ids \<and> rq = assignment_request c hdrs row ids)"
proof (induction rows arbitrary: w)
  case Nil
  then show ?case by simp
next
  case (Cons row rows)
  obtain r w1 where gh: "get_headers env c w = (r, w1)" by (cases "get_headers env c w")
  have t1: "trace w1 = trace w" using get_headers_frame[of env c w] gh by simp
  show ?case
  proof (cases r)
    case (Inl e)
    with gh t1 show ?thesis by simp
  next
    case (Inr hdrs)
    show ?thesis
    proof (cases "a_roleIds row")
      case None
      with gh Inr t1 show ?thesis by simp
    next
      case (Some ids)
      let ?rq = "assignment_request c hdrs row ids"
      obtain out w2 where mk: "make_request_with_rate_limiting env ?rq w1 = (out, w2)"
        by (cases "make_request_with_rate_limiting env ?rq w1")
      have t2: "trace w2 = trace w @ [?rq]"
        using make_request_trace[of env ?rq w1] mk t1 by simp
      let ?w3 = "case out of Inl e \<Rightarrow> log (''Error assigning roles to user '' @ a_email row) w2 | Inr r \<Rightarrow> w2"
      have t3: "trace ?w3 = trace w @ [?rq]" using t2 by (cases out) (auto simp: log_def)
      from Cons.IH[of ?w3] obtain reqs where
        ih: "trace (snd (assign_user_roles_loop env c rows ?w3)) = trace ?w3 @ reqs"
          "\<forall>rq \<in> set reqs. \<exists>row \<in> set rows. \<exists>hdrs ids.
              a_roleIds row = Some ids \<and> rq = assignment_request c hdrs row ids"
        by blast
      have eq: "assign_user_roles_loop env c (row # rows) w = assign_user_roles_loop env c rows ?w3"
        using gh Inr Some mk by (cases out) auto
      have "trace (snd (assign_user_roles_loop env c (row # rows) w)) = trace w @ (?rq # reqs)"
        using eq ih(1) t3 by simp
      moreover have "\<forall>rq \<in> set (?rq # reqs). \<exists>row' \<in> set (row # rows). \<exists>hdrs ids.
              a_roleIds row' = Some ids \<and> rq = assignment_request c hdrs row' ids"
        using ih(2) Some by auto
      ultimately show ?thesis by blast
    qed
  qed
qed

lemma assign_user_roles_bodies:
  assumes "\<forall>row \<in> set rows. a_roleIds row = Some ids0"
  shows "\<exists>reqs. trace (snd (assign_user_roles env c rows w)) = trace w @ reqs \<and>
           (\<forall>rq \<in> set reqs. rq_body rq = RoleIdsBody ids0)"
proof -
  let ?rows = "filter (\<lambda>row. a_roleIds row \<noteq> None) rows"
  let ?w = "log ''Assigning user roles'' w"
  from assign_loop_trace[of env c ?rows ?w] obtain reqs where
    r: "trace (snd (assign_user_roles_loop env c ?rows ?w)) = trace ?w @ reqs"
       "\<forall>rq \<in> set reqs. \<exists>row \<in> set ?rows. \<exists>hdrs ids.
           a_roleIds row = Some ids \<and> rq = assignment_request c hdrs row ids"
    by blast
  have "\<forall>rq \<in> set reqs. rq_body rq = RoleIdsBody ids0"
  proof
    fix rq assume "rq \<in> set reqs"
    with r(2) obtain row hdrs ids where
      "row \<in> set ?rows" "a_roleIds row = Some ids" "rq = assignment_request c hdrs row ids"
      by blast
    with assms show "rq_body rq = RoleIdsBody ids0"
      by (auto simp: assignment_request_def post_request_def)
  qed
  with r(1) show ?thesis by (auto simp: assign_user_roles_def log_def)
qed

lemma rows_after_empty_translation:
  "row \<in> set (assignment_rows users_df (fst (apply_translate [] all_user_roles w))) \<Longrightarrow>
   a_roleIds row = Some []"
  by (drule assignment_rows_roleIds) (auto simp: apply_translate_empty)

text \<open>
  C10. When the fetch of the roles, of the categories or of the permissions fails with a
  remote error other than a 429, the fetch function returns an empty dictionary or list
  instead of raising. When the destination roles fetch fails so, the translation dictionary
  is empty; translating through an empty dictionary drops every role id, every row of the
  assignment table then has an empty role list, and every request that
  \<open>assign_user_roles\<close> sends for that table carries an empty \<open>roleIds\<close>.
\<close>

theorem failed_fetch_yields_empty:
  "(fetch_fails env c ''/identity/resources/roles/v1'' w \<longrightarrow>
      fst (get_roles_mapping env c w) = Inr []) \<and>
   (fetch_fails env c ''/identity/resources/permissions/v1/categories'' w \<longrightarrow>
      fst (get_categories env c w) = Inr []) \<and>
   (fetch_fails env c ''/identity/resources/permissions/v1'' w \<longrightarrow>
      fst (get_permissions env c w) = Inr []) \<and>
   (get_roles_mapping env src w0 = (Inr source_roles, w1) \<and>
    fetch_fails env dst ''/identity/resources/roles/v1'' w1 \<longrightarrow>
      fst (get_role_id_translations env src dst w0) = Inr []) \<and>
   fst (translate_role_ids [] ids w2) = [] \<and>
   (\<forall>row \<in> set (assignment_rows users_df (fst (apply_translate [] all_user_roles w2))).
      a_roleIds row = Some []) \<and>
   (\<exists>reqs. trace (snd (assign_user_roles env dst
                (assignment_rows users_df (fst (apply_translate [] all_user_roles w2))) w3)) =
              trace w3 @ reqs \<and>
            (\<forall>rq \<in> set reqs. rq_body rq = RoleIdsBody []))"
proof -
  have g: "\<exists>reqs. trace (snd (assign_user_roles env dst
                (assignment_rows users_df (fst (apply_translate [] all_user_roles w2))) w3)) =
              trace w3 @ reqs \<and>
            (\<forall>rq \<in> set reqs. rq_body rq = RoleIdsBody [])"
    by (rule assign_user_roles_bodies) (simp add: rows_after_empty_translation)
  have d: "get_roles_mapping env src w0 = (Inr source_roles, w1) \<and>
    fetch_fails env dst ''/identity/resources/roles/v1'' w1 \<longrightarrow>
      fst (get_role_id_translations env src dst w0) = Inr []"
    using get_role_id_translations_fails by blast
  have f: "\<forall>row \<in> set (assignment_rows users_df (fst (apply_translate [] all_user_roles w2))).
      a_roleIds row = Some []"
    using rows_after_empty_translation by blast
  show ?thesis
    by (intro conjI impI get_roles_mapping_fails get_categories_fails get_permissions_fails
        translate_empty d[rule_format] f g) simp_all
qed

theorem failed_fetch_yields_empty_witness:
  "fst (get_roles_mapping roles_then_failing_env destination_client after_one_request) = Inr [] \<and>
   fst (get_categories roles_then_failing_env destination_client after_one_request) = Inr [] \<and>
   fst (get_permissions roles_then_failing_env destination_client after_one_request) = Inr [] \<and>
   fst (get_role_id_translations roles_then_failing_env source_client destination_client
          empty_world) = Inr []"
proof -
  have a: "fetch_fails roles_then_failing_env destination_client path after_one_request" for path
    by (simp add: fetch_fails_def roles_then_failing_env_def get_headers_def
        after_one_request_def)
  have b: "get_roles_mapping roles_then_failing_env source_client empty_world =
             (Inr [(''admin'', ''r1'')], after_one_request)"
    by (simp add: roles_then_failing_env_def get_headers_def empty_world_def
        get_roles_mapping_def make_request_once session_request_def raise_for_status_def
        source_client_def after_one_request_def)
  show ?thesis
    using failed_fetch_yields_empty[where env = roles_then_failing_env
        and c = destination_client and w = after_one_request and src = source_client
        and dst = destination_client and ?w0.0 = empty_world
        and source_roles = "[(''admin'', ''r1'')]" and ?w1.0 = after_one_request] a b
    by blast
qed

section \<open>Properties of the role assignment\<close>

lemma assign_loop_requests:
  "\<exists>reqs. trace (snd (assign_user_roles_loop env c rows w)) = trace w @ reqs \<and>
     map request_line reqs = take (length reqs) (map (expected_assignment c) rows) \<and>
     (fst (assign_user_roles_loop env c rows w) = Inr () \<longrightarrow> length reqs = length rows)"
proof (induction rows arbitrary: w)
  case Nil
  then show ?case by simp
next
  case (Cons row rows)
  obtain r w1 where gh: "get_headers env c w = (r, w1)" by (cases "get_headers env c w")
  have t1: "trace w1 = trace w" using get_headers_frame[of env c w] gh by simp
  show ?case
  proof (cases r)
    case (Inl e)
    with gh t1 show ?thesis by simp
  next
    case (Inr hdrs)
    show ?thesis
    proof (cases "a_roleIds row")
      case None
      with gh Inr t1 show ?thesis by simp
    next
      case (Some ids)
      let ?rq = "assignment_request c hdrs row ids"
      obtain out w2 where mk: "make_request_with_rate_limiting env ?rq w1 = (out, w2)"
        by (cases "make_request_with_rate_limiting env ?rq w1")
      have t2: "trace w2 = trace w @ [?rq]"
        using make_request_trace[of env ?rq w1] mk t1 by simp
      let ?w3 = "case out of
                   Inl e \<Rightarrow> log (''Error assigning roles to user '' @ a_email row) w2
                 | Inr r \<Rightarrow> w2"
      have t3: "trace ?w3 = trace w @ [?rq]" using t2 by (cases out) (auto simp: log_def)
      from Cons.IH[of ?w3] obtain reqs where
        ih: "trace (snd (assign_user_roles_loop env c rows ?w3)) = trace ?w3 @ reqs"
          "map request_line reqs = take (length reqs) (map (expected_assignment c) rows)"
          "fst (assign_user_roles_loop env c rows ?w3) = Inr () \<longrightarrow> length reqs = length rows"
        by blast
      have eq: "assign_user_roles_loop env c (row # rows) w =
                assign_user_roles_loop env c rows ?w3"
        using gh Inr Some mk by (cases out) auto
      have ln: "request_line ?rq = expected_assignment c row"
        using Some
        by (simp add: request_line_def expected_assignment_def assignment_request_def
            post_request_def)
      have "trace (snd (assign_user_roles_loop env c (row # rows) w)) = trace w @ (?rq # reqs)"
        using eq ih(1) t3 by simp
      moreover have "map request_line (?rq # reqs) =
          take (length (?rq # reqs)) (map (expected_assignment c) (row # rows))"
        using ih(2) ln by simp
      moreover have "fst (assign_user_roles_loop env c (row # rows) w) = Inr () \<longrightarrow>
          length (?rq # reqs) = length (row # rows)"
        using ih(3) eq by simp
      ultimately show ?thesis by blast
    qed
  qed
qed

lemma assignment_rows_notnull:
  "filter (\<lambda>row. a_roleIds row \<noteq> None) (assignment_rows users_df rs) =
   assignment_rows users_df rs"
  by (auto simp: filter_id_conv dest: assignment_rows_roleIds)

text \<open>
  C1, as the code has it. \<open>assign_user_roles\<close> sends one POST, in row order, for every row
  whose \<open>roleIds\<close> cell is not null, with the URL formatted from the row's \<open>id_dest\<close>
  cell (\<open>nan\<close> when the destination id is missing) and the row's role list as body (empty
  when no role id was translated); it stops early only when \<open>get_headers\<close> raises. In the
  table that \<open>migrate_users\<close> builds no \<open>roleIds\<close> cell is null, so no row is left out.
\<close>

theorem assign_user_roles_requests:
  "\<exists>reqs. trace (snd (assign_user_roles env c users_df w)) = trace w @ reqs \<and>
     map request_line reqs =
       take (length reqs)
         (map (expected_assignment c) (filter (\<lambda>row. a_roleIds row \<noteq> None) users_df)) \<and>
     (fst (assign_user_roles env c users_df w) = Inr () \<longrightarrow>
        length reqs = length (filter (\<lambda>row. a_roleIds row \<noteq> None) users_df)) \<and>
     filter (\<lambda>row. a_roleIds row \<noteq> None) (assignment_rows joined all_user_roles_df) =
       assignment_rows joined all_user_roles_df"
proof -
  let ?rows = "filter (\<lambda>row. a_roleIds row \<noteq> None) users_df"
  have tr: "trace (log ''Assigning user roles'' w) = trace w"
    by (simp add: log_def)
  have un: "assign_user_roles env c users_df w =
            assign_user_roles_loop env c ?rows (log ''Assigning user roles'' w)"
    by (simp only: assign_user_roles_def)
  from assign_loop_requests[of env c ?rows "log ''Assigning user roles'' w"]
  obtain reqs where
    "trace (snd (assign_user_roles env c users_df w)) = trace w @ reqs"
    "map request_line reqs = take (length reqs) (map (expected_assignment c) ?rows)"
    "fst (assign_user_roles env c users_df w) = Inr () \<longrightarrow> length reqs = length ?rows"
    unfolding un tr by blast
  then show ?thesis
    using assignment_rows_notnull[of joined all_user_roles_df] by blast
qed

theorem assign_user_roles_requests_witness:
  "\<exists>reqs. trace (snd (assign_user_roles replay_env destination_client [unmatched_row]
                        empty_world)) = trace empty_world @ reqs \<and>
          map request_line reqs = [expected_assignment destination_client unmatched_row]"
proof -
  have r: "fst (assign_user_roles replay_env destination_client [unmatched_row] empty_world) =
           Inr ()"
    by code_simp
  have f: "filter (\<lambda>row. a_roleIds row \<noteq> None) [unmatched_row] = [unmatched_row]"
    by (simp add: unmatched_row_def)
  from assign_user_roles_requests[of replay_env destination_client "[unmatched_row]"
      empty_world "[]" "[]"]
  obtain reqs where
    a: "trace (snd (assign_user_roles replay_env destination_client [unmatched_row]
                     empty_world)) = trace empty_world @ reqs"
    and b: "map request_line reqs =
         take (length reqs)
           (map (expected_assignment destination_client)
              (filter (\<lambda>row. a_roleIds row \<noteq> None) [unmatched_row]))"
    and c: "fst (assign_user_roles replay_env destination_client [unmatched_row] empty_world) =
              Inr () \<longrightarrow>
            length reqs = length (filter (\<lambda>row. a_roleIds row \<noteq> None) [unmatched_row])"
    by blast
  from c r have "length reqs = 1" unfolding f by simp
  with b have "map request_line reqs = [expected_assignment destination_client unmatched_row]"
    unfolding f by simp
  with a show ?thesis by (intro exI[of _ reqs] conjI)
qed

text \<open>
  C1 as stated fails. Source user \<open>s1\<close> has no destination user with her email and tenant,
  and her only role has no destination counterpart: the merged row has no destination id
  and an empty translated role list, and \<open>migrate_users\<close> still sends the assignment POST
  for it, to the URL of user \<open>nan\<close>.
\<close>

theorem assignment_without_destination_id:
  "merge_users [ann] [bob] =
     Inr [\<lparr>j_email = ''ann@example.com'', j_tenantId = ''t1'', j_id_source = ''s1'',
           j_id_dest = None\<rparr>] \<and>
   map request_line
     (trace (snd (migrate_users_frames replay_env source_client destination_client
                    [ann] [bob] empty_world))) =
   [(GET, ''https://api.frontegg.com/identity/resources/users/v3/roles'', Some ''t1'', NoBody),
    (GET, ''https://api.frontegg.com/identity/resources/roles/v1'', None, NoBody),
    (GET, ''https://api.us.frontegg.com/identity/resources/roles/v1'', None, NoBody),
    (POST, ''https://api.us.frontegg.com/identity/resources/users/v1/nan/roles'', Some ''t1'',
     RoleIdsBody [])]"
  by code_simp

section \<open>Properties of the merges\<close>

lemma merge_left_fst:
  "map fst (merge_left kl kr xs ys) =
   concat (map (\<lambda>x. replicate (max 1 (length (filter (\<lambda>y. kr y = kl x) ys))) x) xs)"
proof -
  have "map fst (case filter (\<lambda>y. kr y = kl x) ys of
                   [] \<Rightarrow> [(x, None)]
                 | m # ms \<Rightarrow> map (\<lambda>y. (x, Some y)) (m # ms)) =
        replicate (max 1 (length (filter (\<lambda>y. kr y = kl x) ys))) x" for x
    by (cases "filter (\<lambda>y. kr y = kl x) ys") (simp_all add: map_replicate_const comp_def)
  then show ?thesis
    by (simp add: merge_left_def map_concat comp_def)
qed

lemma merge_left_set:
  "(x, r) \<in> set (merge_left kl kr xs ys) \<longleftrightarrow>
   x \<in> set xs \<and>
   (case r of
      None \<Rightarrow> \<not> (\<exists>y \<in> set ys. kr y = kl x)
    | Some y \<Rightarrow> y \<in> set ys \<and> kr y = kl x)"
proof -
  have "(x', r) \<in> set (case filter (\<lambda>y. kr y = kl x) ys of
                   [] \<Rightarrow> [(x, None)]
                 | m # ms \<Rightarrow> map (\<lambda>y. (x, Some y)) (m # ms)) \<longleftrightarrow>
        x' = x \<and> (case r of
                    None \<Rightarrow> \<not> (\<exists>y \<in> set ys. kr y = kl x)
                  | Some y \<Rightarrow> y \<in> set ys \<and> kr y = kl x)" for x x'
  proof (cases "filter (\<lambda>y. kr y = kl x) ys")
    case Nil
    then have "\<not> (\<exists>y \<in> set ys. kr y = kl x)" by (auto simp: filter_empty_conv)
    with Nil show ?thesis by (cases r) auto
  next
    case (Cons m ms)
    then have s: "set (m # ms) = {y \<in> set ys. kr y = kl x}"
      by (metis set_filter)
    then have "\<exists>y \<in> set ys. kr y = kl x" by auto
    with Cons s show ?thesis by (cases r) auto
  qed
  then show ?thesis by (auto simp: merge_left_def)
qed

lemma matching_lowered:
  "filter (\<lambda>y. (u_email y, u_tenantId y) = (lower (u_email s), u_tenantId s))
     (lower_emails vs) = lower_emails (matching_users s vs)"
  by (induction vs) (auto simp: lower_emails_def matching_users_def)

lemma merge_users_Inr:
  "merge_users source_users destination_users = Inr users_df \<Longrightarrow>
   source_users \<noteq> [] \<and> destination_users \<noteq> [] \<and>
   users_df =
     map (\<lambda>(s, d). \<lparr>j_email = u_email s, j_tenantId = u_tenantId s,
                       j_id_source = u_id s, j_id_dest = map_option u_id d\<rparr>)
       (merge_left (\<lambda>u. (u_email u, u_tenantId u)) (\<lambda>u. (u_email u, u_tenantId u))
          (lower_emails source_users) (lower_emails destination_users))"
  by (auto simp: merge_users_def split: if_splits)

lemma merge_users_sources:
  assumes "merge_users source_users destination_users = Inr users_df"
  shows "map j_id_source users_df =
         concat (map (\<lambda>s. replicate (max 1 (length (matching_users s destination_users)))
                              (u_id s)) source_users)"
proof -
  let ?k = "\<lambda>u. (u_email u, u_tenantId u)"
  let ?m = "merge_left ?k ?k (lower_emails source_users) (lower_emails destination_users)"
  have "map j_id_source users_df = map u_id (map fst ?m)"
    using merge_users_Inr[OF assms] by (simp add: case_prod_beta comp_def)
  also have "map fst ?m =
      concat (map (\<lambda>x. replicate
                (max 1 (length (filter (\<lambda>y. ?k y = ?k x) (lower_emails destination_users)))) x)
              (lower_emails source_users))"
    by (rule merge_left_fst)
  also have "map u_id \<dots> =
      concat (map (\<lambda>s. replicate (max 1 (length (matching_users s destination_users)))
                              (u_id s)) source_users)"
    by (simp add: map_concat comp_def lower_emails_def matching_users_def)
  finally show ?thesis .
qed

lemma merge_users_rows:
  assumes "merge_users source_users destination_users = Inr users_df"
    and "row \<in> set users_df"
  shows "(\<exists>u \<in> set source_users. j_id_source row = u_id u \<and> j_email row = lower (u_email u) \<and>
            j_tenantId row = u_tenantId u) \<and>
         (j_id_dest row \<noteq> None \<longleftrightarrow>
            (\<exists>v \<in> set destination_users.
               lower (u_email v) = j_email row \<and> u_tenantId v = j_tenantId row)) \<and>
         (\<forall>i. j_id_dest row = Some i \<longrightarrow>
            (\<exists>v \<in> set destination_users. u_id v = i \<and>
               lower (u_email v) = j_email row \<and> u_tenantId v = j_tenantId row))"
proof -
  let ?k = "\<lambda>u. (u_email u, u_tenantId u)"
  from merge_users_Inr[OF assms(1)] assms(2) obtain s d where
    m: "(s, d) \<in> set (merge_left ?k ?k (lower_emails source_users)
                        (lower_emails destination_users))"
    and row: "row = \<lparr>j_email = u_email s, j_tenantId = u_tenantId s,
                     j_id_source = u_id s, j_id_dest = map_option u_id d\<rparr>"
    by auto
  from m have s: "s \<in> set (lower_emails source_users)"
    and d: "case d of
              None \<Rightarrow> \<not> (\<exists>y \<in> set (lower_emails destination_users). ?k y = ?k s)
            | Some y \<Rightarrow> y \<in> set (lower_emails destination_users) \<and> ?k y = ?k s"
    by (simp_all add: merge_left_set)
  from s obtain u where u: "u \<in> set source_users" "s = u\<lparr>u_email := lower (u_email u)\<rparr>"
    by (auto simp: lower_emails_def)
  have a: "\<exists>u \<in> set source_users. j_id_source row = u_id u \<and>
             j_email row = lower (u_email u) \<and> j_tenantId row = u_tenantId u"
    using u row by auto
  have b: "j_id_dest row \<noteq> None \<longleftrightarrow>
            (\<exists>v \<in> set destination_users.
               lower (u_email v) = j_email row \<and> u_tenantId v = j_tenantId row)"
    using d row by (cases d) (auto simp: lower_emails_def)
  have c: "\<forall>i. j_id_dest row = Some i \<longrightarrow>
            (\<exists>v \<in> set destination_users. u_id v = i \<and>
               lower (u_email v) = j_email row \<and> u_tenantId v = j_tenantId row)"
    using d row by (cases d) (auto simp: lower_emails_def)
  from a b c show ?thesis by (intro conjI)
qed

lemma replicate_once:
  "\<forall>s \<in> set xs. n s \<le> Suc 0 \<Longrightarrow>
   concat (map (\<lambda>s. replicate (max (Suc 0) (n s)) (f s)) xs) = map f xs"
  by (induction xs) (auto simp: max_def)

text \<open>
  C4, as the code has it. The merge returns a table only when both user lists are non-empty
  (a frame built from an empty list has no \<open>email\<close> column); in that table every source
  user appears, in source order, once if at most one destination user
  has its lower-cased email and its tenant and once per such destination user otherwise;
  a row carries the lower-cased email and the tenant of its source user, and it carries a
  destination id if and only if some destination user has that email (lower-cased) and
  that tenant, the id being then that of such a user. When every source user has at most
  one such destination user, every source user appears exactly once.
\<close>

theorem merge_users_join:
  assumes "merge_users source_users destination_users = Inr users_df"
  shows "source_users \<noteq> [] \<and> destination_users \<noteq> [] \<and>
         map j_id_source users_df =
           concat (map (\<lambda>s. replicate (max 1 (length (matching_users s destination_users)))
                                (u_id s)) source_users) \<and>
         (\<forall>row \<in> set users_df.
            (\<exists>u \<in> set source_users. j_id_source row = u_id u \<and>
                j_email row = lower (u_email u) \<and> j_tenantId row = u_tenantId u) \<and>
            (j_id_dest row \<noteq> None \<longleftrightarrow>
               (\<exists>v \<in> set destination_users.
                  lower (u_email v) = j_email row \<and> u_tenantId v = j_tenantId row)) \<and>
            (\<forall>i. j_id_dest row = Some i \<longrightarrow>
               (\<exists>v \<in> set destination_users. u_id v = i \<and>
                  lower (u_email v) = j_email row \<and> u_tenantId v = j_tenantId row))) \<and>
         ((\<forall>s \<in> set source_users. length (matching_users s destination_users) \<le> 1) \<longrightarrow>
            map j_id_source users_df = map u_id source_users)"
proof -
  have a: "map j_id_source users_df =
           concat (map (\<lambda>s. replicate (max 1 (length (matching_users s destination_users)))
                                (u_id s)) source_users)"
    by (rule merge_users_sources[OF assms])
  have c: "(\<forall>s \<in> set source_users. length (matching_users s destination_users) \<le> 1) \<longrightarrow>
            map j_id_source users_df = map u_id source_users"
    unfolding a
    using replicate_once[of source_users "\<lambda>s. length (matching_users s destination_users)" u_id]
    by simp
  have b: "\<forall>row \<in> set users_df.
            (\<exists>u \<in> set source_users. j_id_source row = u_id u \<and>
                j_email row = lower (u_email u) \<and> j_tenantId row = u_tenantId u) \<and>
            (j_id_dest row \<noteq> None \<longleftrightarrow>
               (\<exists>v \<in> set destination_users.
                  lower (u_email v) = j_email row \<and> u_tenantId v = j_tenantId row)) \<and>
            (\<forall>i. j_id_dest row = Some i \<longrightarrow>
               (\<exists>v \<in> set destination_users. u_id v = i \<and>
                  lower (u_email v) = j_email row \<and> u_tenantId v = j_tenantId row))"
    using merge_users_rows[OF assms] by (intro ballI)
  from a b c merge_users_Inr[OF assms] show ?thesis by (intro conjI) simp_all
qed

theorem merge_users_join_witness:
  "merge_users [ann] [bob] = Inr [ann_unmatched] \<and>
   map j_id_source [ann_unmatched] = map u_id [ann] \<and>
   j_id_dest ann_unmatched = None"
proof -
  have h: "merge_users [ann] [bob] = Inr [ann_unmatched]"
    by code_simp
  have m: "\<forall>s \<in> set [ann]. length (matching_users s [bob]) \<le> 1"
    by (simp add: matching_users_def)
  have n: "\<not> (\<exists>v \<in> set [bob].
              lower (u_email v) = j_email ann_unmatched \<and>
              u_tenantId v = j_tenantId ann_unmatched)"
    by code_simp
  note t = merge_users_join[OF h]
  have a: "map j_id_source [ann_unmatched] = map u_id [ann]"
    using t[THEN conjunct2, THEN conjunct2, THEN conjunct2, THEN conjunct2] m by (rule mp)
  have "ann_unmatched \<in> set [ann_unmatched]" by simp
  from t[THEN conjunct2, THEN conjunct2, THEN conjunct2, THEN conjunct1, rule_format, OF this]
  have "j_id_dest ann_unmatched \<noteq> None \<longleftrightarrow>
         (\<exists>v \<in> set [bob]. lower (u_email v) = j_email ann_unmatched \<and>
                           u_tenantId v = j_tenantId ann_unmatched)"
    by (elim conjE)
  with n have b: "j_id_dest ann_unmatched = None"
    by auto
  from h a b show ?thesis by (intro conjI)
qed

text \<open>
  C4 as stated fails. The destination has two users whose emails differ by case only, in
  the tenant of source user \<open>s1\<close>: after lower-casing both match, and the source user
  appears twice in the joined table.
\<close>

theorem source_user_joined_twice:
  "merge_users [ann] [ann_lower, ann_upper] =
     Inr [\<lparr>j_email = ''ann@example.com'', j_tenantId = ''t1'', j_id_source = ''s1'',
           j_id_dest = Some ''d1''\<rparr>,
          \<lparr>j_email = ''ann@example.com'', j_tenantId = ''t1'', j_id_source = ''s1'',
           j_id_dest = Some ''d2''\<rparr>]"
  by code_simp

section \<open>Properties of the category dictionary and of the translation\<close>

lemma find_append:
  "find P (xs @ ys) = (case find P xs of None \<Rightarrow> find P ys | Some x \<Rightarrow> Some x)"
  by (induction xs) auto

lemma map_of_fold_update:
  "map_of (fold (\<lambda>x d. AList.update (k x) (v x) d) xs d0) key =
     (case find (\<lambda>x. k x = key) (rev xs) of
        Some x \<Rightarrow> Some (v x)
      | None \<Rightarrow> map_of d0 key)"
  by (induction xs arbitrary: d0) (auto simp: find_append update_conv' split: option.splits)

lemma find_destination_id_categories:
  "find_destination_id (map CategoryItem dcs) (CategoryItem sc) =
     Inr (map_option c_id (find (\<lambda>dc. c_name dc = c_name sc) dcs))"
  by (induction dcs) (simp_all add: item_name_def item_id_def)

lemma category_mapping_loop_categories:
  "category_mapping_loop (map CategoryItem dcs) (map CategoryItem scs) d =
     Inr (fold (\<lambda>src_cat d.
                  AList.update (c_id src_cat)
                    (map_option c_id (find (\<lambda>dc. c_name dc = c_name src_cat) dcs)) d)
            scs d)"
  by (induction scs arbitrary: d) (simp_all add: item_id_def find_destination_id_categories)

lemma category_mapping_categories:
  "category_mapping (map CategoryItem scs) (map CategoryItem dcs) = Inr (category_dict scs dcs)"
  by (simp add: category_mapping_def category_dict_def category_mapping_loop_categories)

lemma category_dict_get:
  "mapping_get (category_dict source_categories destination_categories) (Some cid) =
     (case find (\<lambda>sc. c_id sc = cid) (rev source_categories) of
        None \<Rightarrow> None
      | Some sc \<Rightarrow>
          map_option c_id (find (\<lambda>dc. c_name dc = c_name sc) destination_categories))"
  by (simp add: mapping_get_def category_dict_def map_of_fold_update split: option.splits)

lemma rewrite_category_ids_permissions:
  "fst (rewrite_category_ids m (map PermissionItem ps) w) =
     Inr (map (\<lambda>p. p\<lparr>p_categoryId := mapping_get m (p_categoryId p)\<rparr>) ps) \<and>
   trace (snd (rewrite_category_ids m (map PermissionItem ps) w)) = trace w \<and>
   server (snd (rewrite_category_ids m (map PermissionItem ps) w)) = server w"
proof (induction ps arbitrary: w)
  case Nil
  then show ?case by simp
next
  case (Cons p ps)
  let ?w1 = "if truthy (mapping_get m (p_categoryId p)) then w
             else log (''Category ID for permission '' @ p_name p @ '' not found. Skipping.'') w"
  obtain r w2 where rw: "rewrite_category_ids m (map PermissionItem ps) ?w1 = (r, w2)"
    by (cases "rewrite_category_ids m (map PermissionItem ps) ?w1")
  from Cons.IH[of ?w1] rw
  have r: "r = Inr (map (\<lambda>p. p\<lparr>p_categoryId := mapping_get m (p_categoryId p)\<rparr>) ps)"
    and t: "trace w2 = trace w" "server w2 = server w"
    by (simp_all add: log_def)
  from rw r t show ?case by (simp add: Let_def)
qed

lemma translated_permission_rewrite:
  "translated_permission source_categories destination_categories p =
     (if truthy (mapping_get (category_dict source_categories destination_categories)
                   (p_categoryId p))
      then Some (permission_datum
                   (p\<lparr>p_categoryId :=
                        mapping_get (category_dict source_categories destination_categories)
                          (p_categoryId p)\<rparr>))
      else None)"
proof (cases "p_categoryId p")
  case None
  then show ?thesis
    by (simp add: translated_permission_def mapping_get_def truthy_def)
next
  case (Some cid)
  then show ?thesis
    by (auto simp: translated_permission_def category_dict_get truthy_def permission_datum_def
        split: option.splits)
qed

lemma permissions_data_rewritten:
  "permissions_data
     (map (\<lambda>p. p\<lparr>p_categoryId :=
                    mapping_get (category_dict source_categories destination_categories)
                      (p_categoryId p)\<rparr>) ps) =
   List.map_filter (translated_permission source_categories destination_categories) ps"
  by (induction ps) (simp_all add: permissions_data_def translated_permission_rewrite)

lemma translated_permission_Some:
  assumes "translated_permission source_categories destination_categories p = Some pd"
  shows "\<exists>sc \<in> set source_categories. \<exists>dc \<in> set destination_categories.
           p_categoryId p = Some (c_id sc) \<and> c_name dc = c_name sc \<and>
           pd_categoryId pd = c_id dc \<and> pd_key pd = p_key p \<and> pd_name pd = p_name p"
proof -
  from assms obtain cid sc dc where
    "p_categoryId p = Some cid"
    "find (\<lambda>sc. c_id sc = cid) (rev source_categories) = Some sc"
    "find (\<lambda>dc. c_name dc = c_name sc) destination_categories = Some dc"
    "pd_categoryId pd = c_id dc" "pd_key pd = p_key p" "pd_name pd = p_name p"
    by (auto simp: translated_permission_def split: option.splits if_splits)
  then show ?thesis
    by (auto simp: find_Some_iff in_set_conv_nth) (metis length_rev nth_mem set_rev)+
qed

lemma translated_permission_None:
  assumes "\<not> (\<exists>sc \<in> set source_categories. \<exists>dc \<in> set destination_categories.
              p_categoryId p = Some (c_id sc) \<and> c_name dc = c_name sc)"
  shows "translated_permission source_categories destination_categories p = None"
proof (rule ccontr)
  assume "translated_permission source_categories destination_categories p \<noteq> None"
  then obtain pd where
    "translated_permission source_categories destination_categories p = Some pd"
    by auto
  from translated_permission_Some[OF this] assms show False by blast
qed

lemma create_permissions_trace:
  "get_headers env c (log ''Creating permissions'' w) = (Inr hdrs, w1) \<Longrightarrow>
   trace (snd (create_permissions env c ps w)) =
     trace w @ [post_request hdrs (base_url c @ ''/identity/resources/permissions/v1'') None
                  (PermissionsBody (permissions_data ps))]"
  using get_headers_frame[of env c "log ''Creating permissions'' w"]
    make_request_trace[of env "post_request hdrs (base_url c @ ''/identity/resources/permissions/v1'') None
                  (PermissionsBody (permissions_data ps))" w1]
  by (auto simp: create_permissions_def log_def split: prod.splits sum.splits)

section \<open>Properties of the CSV credential merge\<close>

lemma groupby_tail1_subset: "set (groupby_tail1 xs) \<subseteq> set xs"
  by (induction xs) auto

lemma groupby_tail1_ids: "ch_userId ` set (groupby_tail1 xs) = ch_userId ` set xs"
proof (induction xs)
  case Nil
  then show ?case by simp
next
  case (Cons a xs)
  then show ?case by (auto simp: image_iff) 
qed

lemma groupby_tail1_distinct: "distinct (map ch_userId (groupby_tail1 xs))"
proof (induction xs)
  case Nil
  then show ?case by simp
next
  case (Cons a xs)
  have "ch_userId a \<notin> ch_userId ` set xs \<Longrightarrow> ch_userId a \<notin> ch_userId ` set (groupby_tail1 xs)"
    by (simp add: groupby_tail1_ids)
  with Cons show ?case by auto
qed

lemma groupby_tail1_latest:
  "sorted (map ch_createdAt xs) \<Longrightarrow> r \<in> set (groupby_tail1 xs) \<Longrightarrow> r' \<in> set xs \<Longrightarrow>
   ch_userId r' = ch_userId r \<Longrightarrow> ch_createdAt r' \<le> ch_createdAt r"
proof (induction xs)
  case Nil
  then show ?case by simp
next
  case (Cons a xs)
  from Cons.prems(1) have s: "sorted (map ch_createdAt xs)"
    and le: "\<forall>x \<in> set xs. ch_createdAt a \<le> ch_createdAt x"
    by auto
  show ?case
  proof (cases "ch_userId a \<in> set (map ch_userId xs)")
    case True
    with Cons.prems(2) have r: "r \<in> set (groupby_tail1 xs)" by simp
    then have rx: "r \<in> set xs" using groupby_tail1_subset by blast
    show ?thesis
    proof (cases "r' = a")
      case True
      with le rx show ?thesis by simp
    next
      case False
      with Cons.prems(3) have "r' \<in> set xs" by simp
      from Cons.IH[OF s r this Cons.prems(4)] show ?thesis .
    qed
  next
    case False
    show ?thesis
    proof (cases "r = a")
      case True
      with False Cons.prems(3,4) have "r' = a" by (auto simp: image_iff)
      with True show ?thesis by simp
    next
      case ra: False
      with False Cons.prems(2) have r: "r \<in> set (groupby_tail1 xs)" by simp
      then have rx: "r \<in> set xs" using groupby_tail1_subset by blast
      with False Cons.prems(4) have "r' \<noteq> a" by (auto simp: image_iff)
      with Cons.prems(3) have "r' \<in> set xs" by simp
      from Cons.IH[OF s r this Cons.prems(4)] show ?thesis .
    qed
  qed
qed

lemma filter_distinct_key:
  "distinct (map f ys) \<Longrightarrow> length (filter (\<lambda>y. f y = k) ys) \<le> Suc 0"
  by (induction ys) (auto simp: filter_empty_conv image_iff)

lemma final_df_users:
  "map fst (final_df sort_values users_df hashes_df) = users_df"
proof -
  have "length (filter (\<lambda>y. ch_userId y = cu_userId x)
                  (latest_hashes sort_values hashes_df)) \<le> Suc 0" for x
    unfolding latest_hashes_def by (rule filter_distinct_key[OF groupby_tail1_distinct])
  then have "\<forall>s \<in> set users_df.
      length (filter (\<lambda>y. ch_userId y = cu_userId s) (latest_hashes sort_values hashes_df))
        \<le> Suc 0"
    by blast
  from replicate_once[OF this, of "\<lambda>x. x"] show ?thesis
    by (simp add: final_df_def merge_left_fst)
qed

lemma final_df_rows:
  assumes "mset (sort_values permuted) = mset hashes_df"
    and "sorted (map ch_createdAt (sort_values permuted))"
    and "(u, h) \<in> set (final_df sort_values users_df permuted)"
  shows "case h of
           None \<Rightarrow> \<not> (\<exists>r \<in> set hashes_df. ch_userId r = cu_userId u)
         | Some r \<Rightarrow> r \<in> set hashes_df \<and> ch_userId r = cu_userId u \<and>
             (\<forall>r' \<in> set hashes_df. ch_userId r' = cu_userId u \<longrightarrow>
                ch_createdAt r' \<le> ch_createdAt r)"
proof -
  let ?s = "sort_values permuted"
  have st: "set ?s = set hashes_df" using assms(1) by (metis set_mset_mset)
  from assms(3) have m: "case h of
      None \<Rightarrow> \<not> (\<exists>y \<in> set (groupby_tail1 ?s). ch_userId y = cu_userId u)
    | Some y \<Rightarrow> y \<in> set (groupby_tail1 ?s) \<and> ch_userId y = cu_userId u"
    by (simp add: final_df_def latest_hashes_def merge_left_set)
  show ?thesis
  proof (cases h)
    case None
    with m have "cu_userId u \<notin> ch_userId ` set (groupby_tail1 ?s)" by auto
    then have "cu_userId u \<notin> ch_userId ` set hashes_df"
      by (simp add: groupby_tail1_ids st)
    with None show ?thesis by force
  next
    case (Some r)
    with m have r: "r \<in> set (groupby_tail1 ?s)" "ch_userId r = cu_userId u" by auto
    then have "r \<in> set hashes_df" using groupby_tail1_subset st by blast
    moreover have "\<forall>r' \<in> set hashes_df. ch_userId r' = cu_userId u \<longrightarrow>
        ch_createdAt r' \<le> ch_createdAt r"
      using groupby_tail1_latest[OF assms(2) r(1)] r(2) st by auto
    ultimately show ?thesis using Some r(2) by simp
  qed
qed

lemma final_df_strictly_latest:
  assumes "mset (sort_values permuted) = mset hashes_df"
    and "sorted (map ch_createdAt (sort_values permuted))"
    and "r \<in> set hashes_df" and "u \<in> set users_df" and "cu_userId u = ch_userId r"
    and "\<forall>r' \<in> set hashes_df. ch_userId r' = ch_userId r \<and> r' \<noteq> r \<longrightarrow>
           ch_createdAt r' < ch_createdAt r"
  shows "(u, Some r) \<in> set (final_df sort_values users_df permuted)"
proof -
  have "u \<in> set (map fst (final_df sort_values users_df permuted))"
    using assms(4) by (simp only: final_df_users)
  then obtain h where h: "(u, h) \<in> set (final_df sort_values users_df permuted)" by auto
  note c = final_df_rows[where sort_values = sort_values and permuted = permuted,
      OF assms(1,2) h]
  show ?thesis
  proof (cases h)
    case None
    with c assms(3,5) show ?thesis by auto
  next
    case (Some y)
    with c have y: "y \<in> set hashes_df" "ch_userId y = ch_userId r"
      "ch_createdAt r \<le> ch_createdAt y"
      using assms(3,5) by auto
    with assms(6) have "y = r" by force
    with h Some show ?thesis by simp
  qed
qed

lemma create_migration_csv_written:
  "env_read_users_csv env (server w) = Inr users_df \<Longrightarrow>
   env_read_hashes_csv env (server w) = Inr hashes_df \<Longrightarrow>
   csv_written (snd (create_migration_csv sort_values env w)) =
     Some (map select_columns (final_df sort_values users_df hashes_df))"
  by (simp add: create_migration_csv_def log_def Let_def)

text \<open>
  C8. Let the hash rows be given in any order (\<open>permuted\<close>, a permutation of
  \<open>hashes_df\<close>), and let \<open>sort_values\<close> sort them by \<open>createdAt\<close>. Then every user row
  appears exactly once in the merged frame, in order; a user row with no hash row has an
  absent hash; the hash row joined to a user row is one of that user's rows with the
  maximum \<open>createdAt\<close>; and a hash row strictly later than every other row of its user is
  the one joined to that user, whatever the order of the input. The file written holds the
  selected columns of that frame, the \<open>hash\<close> column being the hash of the joined row.
\<close>

theorem latest_hash_selected:
  assumes "mset permuted = mset hashes_df"
    and "mset (sort_values permuted) = mset permuted"
    and "sorted (map ch_createdAt (sort_values permuted))"
  shows "map fst (final_df sort_values users_df permuted) = users_df \<and>
         (\<forall>(u, h) \<in> set (final_df sort_values users_df permuted).
            case h of
              None \<Rightarrow> \<not> (\<exists>r \<in> set hashes_df. ch_userId r = cu_userId u)
            | Some r \<Rightarrow> r \<in> set hashes_df \<and> ch_userId r = cu_userId u \<and>
                (\<forall>r' \<in> set hashes_df. ch_userId r' = cu_userId u \<longrightarrow>
                   ch_createdAt r' \<le> ch_createdAt r)) \<and>
         (\<forall>r \<in> set hashes_df. \<forall>u \<in> set users_df.
            cu_userId u = ch_userId r \<and>
            (\<forall>r' \<in> set hashes_df. ch_userId r' = ch_userId r \<and> r' \<noteq> r \<longrightarrow>
               ch_createdAt r' < ch_createdAt r) \<longrightarrow>
            (u, Some r) \<in> set (final_df sort_values users_df permuted)) \<and>
         (env_read_users_csv env (server w) = Inr users_df \<and>
          env_read_hashes_csv env (server w) = Inr permuted \<longrightarrow>
            csv_written (snd (create_migration_csv sort_values env w)) =
              Some (map select_columns (final_df sort_values users_df permuted))) \<and>
         (\<forall>row. cr_hash (select_columns row) = map_option ch_hash (snd row))"
proof -
  have p: "mset (sort_values permuted) = mset hashes_df"
    using assms(1,2) by simp
  have a: "\<forall>(u, h) \<in> set (final_df sort_values users_df permuted).
            case h of
              None \<Rightarrow> \<not> (\<exists>r \<in> set hashes_df. ch_userId r = cu_userId u)
            | Some r \<Rightarrow> r \<in> set hashes_df \<and> ch_userId r = cu_userId u \<and>
                (\<forall>r' \<in> set hashes_df. ch_userId r' = cu_userId u \<longrightarrow>
                   ch_createdAt r' \<le> ch_createdAt r)"
    using final_df_rows[where sort_values = sort_values and permuted = permuted,
        OF p assms(3)] by blast
  have b: "\<forall>r \<in> set hashes_df. \<forall>u \<in> set users_df.
            cu_userId u = ch_userId r \<and>
            (\<forall>r' \<in> set hashes_df. ch_userId r' = ch_userId r \<and> r' \<noteq> r \<longrightarrow>
               ch_createdAt r' < ch_createdAt r) \<longrightarrow>
            (u, Some r) \<in> set (final_df sort_values users_df permuted)"
    using final_df_strictly_latest[where sort_values = sort_values and permuted = permuted,
        OF p assms(3)] by blast
  have c: "env_read_users_csv env (server w) = Inr users_df \<and>
          env_read_hashes_csv env (server w) = Inr permuted \<longrightarrow>
            csv_written (snd (create_migration_csv sort_values env w)) =
              Some (map select_columns (final_df sort_values users_df permuted))"
    using create_migration_csv_written by blast
  have d: "\<forall>row. cr_hash (select_columns row) = map_option ch_hash (snd row)"
    by (simp add: select_columns_def)
  from final_df_users a b c d show ?thesis by (intro conjI)
qed

theorem latest_hash_selected_witness:
  "final_df (sort_key ch_createdAt) [carol, dave] [hash_at 3, hash_at 1, hash_at 2] =
     [(carol, Some (hash_at 3)), (dave, None)]"
proof -
  let ?permuted = "[hash_at 3, hash_at 1, hash_at 2]"
  let ?hashes = "[hash_at 1, hash_at 2, hash_at 3]"
  let ?f = "final_df (sort_key ch_createdAt) [carol, dave] ?permuted"
  have h1: "mset ?permuted = mset ?hashes" by simp
  have h2: "mset (sort_key ch_createdAt ?permuted) = mset ?permuted" by (rule mset_sort)
  have h3: "sorted (map ch_createdAt (sort_key ch_createdAt ?permuted))"
    by (rule sorted_sort_key)
  note t = latest_hash_selected[where sort_values = "sort_key ch_createdAt"
      and permuted = ?permuted and hashes_df = ?hashes and users_df = "[carol, dave]",
      OF h1 h2 h3]
  have users: "map fst ?f = [carol, dave]" by (rule t[THEN conjunct1])
  have rows: "\<forall>(u, h) \<in> set ?f.
            case h of
              None \<Rightarrow> \<not> (\<exists>r \<in> set ?hashes. ch_userId r = cu_userId u)
            | Some r \<Rightarrow> r \<in> set ?hashes \<and> ch_userId r = cu_userId u \<and>
                (\<forall>r' \<in> set ?hashes. ch_userId r' = cu_userId u \<longrightarrow>
                   ch_createdAt r' \<le> ch_createdAt r)"
    by (rule t[THEN conjunct2, THEN conjunct1])
  from users obtain h k where f: "?f = [(carol, h), (dave, k)]"
    by (auto simp: map_eq_Cons_conv)
  from rows f have "h = Some (hash_at 3)"
    by (cases h) (auto simp: hash_at_def carol_def)
  moreover from rows f have "k = None"
    by (cases k) (auto simp: hash_at_def dave_def)
  ultimately show ?thesis using f by simp
qed

section \<open>Properties of the create stages\<close>

lemma create_absent_tenants_all_exist:
  "set (map t_tenantId tenants) \<subseteq> existing \<Longrightarrow>
   fst (create_absent_tenants env c existing tenants w) = Inr () \<and>
   trace (snd (create_absent_tenants env c existing tenants w)) = trace w \<and>
   server (snd (create_absent_tenants env c existing tenants w)) = server w"
  by (induction tenants arbitrary: w) (simp_all add: log_def)

lemma create_categories_loop_trace:
  "fst (create_categories_loop env c hdrs (map CategoryItem cats) w) = Inr () \<and>
   trace (snd (create_categories_loop env c hdrs (map CategoryItem cats) w)) =
     trace w @ map (category_request c hdrs) cats"
proof (induction cats arbitrary: w)
  case Nil
  then show ?case by simp
next
  case (Cons cat cats)
  obtain out w1 where
    mk: "make_request_with_rate_limiting env (category_request c hdrs cat) w = (out, w1)"
    by (cases "make_request_with_rate_limiting env (category_request c hdrs cat) w")
  have t: "trace w1 = trace w @ [category_request c hdrs cat]"
    using make_request_trace[of env "category_request c hdrs cat" w] mk by simp
  have d: "category_post c hdrs (c_name cat)
             (case c_description cat of None \<Rightarrow> [] | Some d \<Rightarrow> d) =
           category_request c hdrs cat"
    by (simp add: category_request_def)
  show ?case
    using mk t Cons.IH
    by (cases out) (simp_all add: item_name_def item_description_def d log_def)
qed

lemma create_categories_trace:
  "get_headers env c (log ''Creating categories'' w) = (Inr hdrs, w1) \<Longrightarrow>
   trace (snd (create_categories env c (map CategoryItem cats) w)) =
     trace w @ map (category_request c hdrs) cats"
  using get_headers_frame[of env c "log ''Creating categories'' w"]
  by (simp add: create_categories_def create_categories_loop_trace log_def)

text \<open>
  C2, as the code has it. Only the tenant stage creates if absent: when the listing of the
  destination's tenants succeeds and holds the id of every source tenant (as after a run
  whose creations succeeded), \<open>bulk_create_tenants\<close> sends nothing after the listing and
  leaves the destination as the listing left it. \<open>create_categories\<close> sends one POST per
  source category and \<open>create_permissions\<close> one POST of the whole list, on every run,
  whatever the destination holds.
\<close>

theorem create_if_absent_only_for_tenants:
  "(get_tenants env dst (log ''Starting bulk creation of tenants'' w) =
      Some (Inr existing, w1) \<and>
    set (map t_tenantId tenants) \<subseteq> set (map t_tenantId existing) \<longrightarrow>
      (\<exists>w2. bulk_create_tenants env dst tenants w = Some (Inr (), w2) \<and>
            trace w2 = trace w1 \<and> server w2 = server w1)) \<and>
   (get_headers env dst (log ''Creating categories'' w) = (Inr hdrs, w3) \<longrightarrow>
      trace (snd (create_categories env dst (map CategoryItem categories) w)) =
        trace w @ map (category_request dst hdrs) categories) \<and>
   (get_headers env dst (log ''Creating permissions'' w) = (Inr hdrs, w4) \<longrightarrow>
      trace (snd (create_permissions env dst permissions w)) =
        trace w @ [post_request hdrs (base_url dst @ ''/identity/resources/permissions/v1'')
                     None (PermissionsBody (permissions_data permissions))])"
proof (intro conjI impI)
  assume a: "get_tenants env dst (log ''Starting bulk creation of tenants'' w) =
      Some (Inr existing, w1) \<and>
    set (map t_tenantId tenants) \<subseteq> set (map t_tenantId existing)"
  let ?r = "create_absent_tenants env dst (set (map t_tenantId existing)) tenants w1"
  from a have "bulk_create_tenants env dst tenants w = Some ?r"
    by (simp add: bulk_create_tenants_def)
  moreover from a have "fst ?r = Inr () \<and> trace (snd ?r) = trace w1 \<and> server (snd ?r) = server w1"
    by (intro create_absent_tenants_all_exist) simp
  ultimately show "\<exists>w2. bulk_create_tenants env dst tenants w = Some (Inr (), w2) \<and>
            trace w2 = trace w1 \<and> server w2 = server w1"
    by (cases ?r) auto
next
  assume "get_headers env dst (log ''Creating categories'' w) = (Inr hdrs, w3)"
  then show "trace (snd (create_categories env dst (map CategoryItem categories) w)) =
        trace w @ map (category_request dst hdrs) categories"
    by (rule create_categories_trace)
next
  assume "get_headers env dst (log ''Creating permissions'' w) = (Inr hdrs, w4)"
  then show "trace (snd (create_permissions env dst permissions w)) =
        trace w @ [post_request hdrs (base_url dst @ ''/identity/resources/permissions/v1'')
                     None (PermissionsBody (permissions_data permissions))]"
    by (rule create_permissions_trace)
qed

lemma paginate_Some:
  "paginate env c hdrs dec (Some url) params items w =
     (if url = [] then Some (Inr items, w)
      else
        (case make_request_with_rate_limiting env (get_request hdrs url params) w of
           (Inl e, w') \<Rightarrow> Some (Inl e, w')
         | (Inr r, w') \<Rightarrow>
             (case dec (payload r) of
                None \<Rightarrow> Some (Inl BadResponse, w')
              | Some (page_items, next_link) \<Rightarrow>
                  (case next_link of
                     None \<Rightarrow> Some (Inr (items @ page_items), w')
                   | Some l \<Rightarrow>
                       if l \<noteq> [] then
                         paginate env c hdrs dec (Some (base_url c @ l)) []
                           (items @ page_items) w'
                       else Some (Inr (items @ page_items), w')))))"
  by (subst paginate.simps) (simp add: paginate_None split: prod.splits sum.splits option.splits)

lemma get_tenants_two_pages:
  "get_tenants two_page_env destination_client
     (log ''Starting bulk creation of tenants'' empty_world) =
   Some (Inr [tenant_one, \<lparr>t_tenantId = ''t2'', t_name = ''Two'', t_metadata = None\<rparr>],
         \<lparr>server = 2,
          trace = [get_request ''token''
                     ''https://api.us.frontegg.com/tenants/resources/tenants/v2''
                     [(''_limit'', ''100'')],
                   get_request ''token''
                     ''https://api.us.frontegg.com/tenants/resources/tenants/v2?_offset=1'' []],
          logs = [''Starting bulk creation of tenants''], csv_written = None\<rparr>)"
  by (simp add: get_tenants_def get_all_paginated_items_def get_headers_def two_page_env_def
      destination_client_def empty_world_def log_def paginate_Some make_request_once
      session_request_def raise_for_status_def tenants_decoder_def tenant_one_def)

theorem create_if_absent_only_for_tenants_witness:
  "\<exists>w2. bulk_create_tenants two_page_env destination_client [tenant_one] empty_world =
           Some (Inr (), w2) \<and>
        trace w2 =
          [get_request ''token'' ''https://api.us.frontegg.com/tenants/resources/tenants/v2''
             [(''_limit'', ''100'')],
           get_request ''token''
             ''https://api.us.frontegg.com/tenants/resources/tenants/v2?_offset=1'' []] \<and>
        server w2 = 2"
proof -
  have s: "set (map t_tenantId [tenant_one]) \<subseteq>
           set (map t_tenantId
                  [tenant_one, \<lparr>t_tenantId = ''t2'', t_name = ''Two'', t_metadata = None\<rparr>])"
    by simp
  from create_if_absent_only_for_tenants[THEN conjunct1, rule_format,
      OF conjI[OF get_tenants_two_pages s]]
  show ?thesis by simp
qed

text \<open>
  C2 as stated fails. Against a destination that stores what it is sent, starting empty,
  a first run of the category stage creates the Billing category; a second run, against
  the state the first run left, sends the create call again and the destination then holds
  two Billing categories.
\<close>

theorem categories_created_again:
  "server (snd (create_categories category_store_env destination_client
                  [CategoryItem billing_source]
                  empty_store)) =
     [\<lparr>c_id = ''c'', c_name = ''Billing'', c_description = Some []\<rparr>] \<and>
   server (snd (create_categories category_store_env destination_client
                  [CategoryItem billing_source]
                  (snd (create_categories category_store_env destination_client
                          [CategoryItem billing_source] empty_store)))) =
     [\<lparr>c_id = ''c'', c_name = ''Billing'', c_description = Some []\<rparr>,
      \<lparr>c_id = ''cc'', c_name = ''Billing'', c_description = Some []\<rparr>] \<and>
   map request_line
     (trace (snd (create_categories category_store_env destination_client
                  [CategoryItem billing_source]
                    (snd (create_categories category_store_env destination_client
                            [CategoryItem billing_source] empty_store))))) =
     [(POST, ''https://api.us.frontegg.com/identity/resources/permissions/v1/categories'',
       None, CategoryBody ''Billing'' []),
      (POST, ''https://api.us.frontegg.com/identity/resources/permissions/v1/categories'',
       None, CategoryBody ''Billing'' [])]"
  by code_simp

section \<open>Properties of the settings stage\<close>

lemma get_categories_sends:
  assumes "headers_ok env"
  shows "sends w [get_line (base_url c @ ''/identity/resources/permissions/v1/categories'')]
           (snd (get_categories env c w))"
proof -
  from headers_ok_get_headers[OF assms, of c w] obtain h w1 where
    gh: "get_headers env c w = (Inr h, w1)" by blast
  have t1: "trace w1 = trace w" using get_headers_frame[of env c w] gh by simp
  let ?rq = "get_request h (base_url c @ ''/identity/resources/permissions/v1/categories'') []"
  obtain out w2 where mk: "make_request_with_rate_limiting env ?rq w1 = (out, w2)"
    by (cases "make_request_with_rate_limiting env ?rq w1")
  have t2: "trace w2 = trace w1 @ [?rq]" using make_request_trace[of env ?rq w1] mk by simp
  have "trace (snd (get_categories env c w)) = trace w @ [?rq]"
    using gh mk t1 t2
    by (cases out) (simp_all add: get_categories_def log_def split: option.splits)
  then show ?thesis
    by (rule sendsI) (simp add: request_line_def get_request_def get_line_def)
qed

lemma get_permissions_sends:
  assumes "headers_ok env"
  shows "sends w [get_line (base_url c @ ''/identity/resources/permissions/v1'')]
           (snd (get_permissions env c w))"
proof -
  from headers_ok_get_headers[OF assms, of c w] obtain h w1 where
    gh: "get_headers env c w = (Inr h, w1)" by blast
  have t1: "trace w1 = trace w" using get_headers_frame[of env c w] gh by simp
  let ?rq = "get_request h (base_url c @ ''/identity/resources/permissions/v1'') []"
  obtain out w2 where mk: "make_request_with_rate_limiting env ?rq w1 = (out, w2)"
    by (cases "make_request_with_rate_limiting env ?rq w1")
  have t2: "trace w2 = trace w1 @ [?rq]" using make_request_trace[of env ?rq w1] mk by simp
  have "trace (snd (get_permissions env c w)) = trace w @ [?rq]"
    using gh mk t1 t2
    by (cases out) (simp_all add: get_permissions_def log_def split: option.splits)
  then show ?thesis
    by (rule sendsI) (simp add: request_line_def get_request_def get_line_def)
qed

lemma create_categories_sends:
  assumes "headers_ok env"
  shows "fst (create_categories env c (map CategoryItem cats) w) = Inr () \<and>
         sends w (map (category_line c) cats)
           (snd (create_categories env c (map CategoryItem cats) w))"
proof -
  from headers_ok_get_headers[OF assms, of c "log ''Creating categories'' w"] obtain h w1 where
    gh: "get_headers env c (log ''Creating categories'' w) = (Inr h, w1)" by blast
  have "map request_line (map (category_request c h) cats) = map (category_line c) cats"
    by (simp add: request_line_def category_request_def category_post_def post_request_def
        category_line_def)
  with create_categories_trace[OF gh, of cats]
  have "sends w (map (category_line c) cats)
          (snd (create_categories env c (map CategoryItem cats) w))"
    by (rule sendsI)
  moreover have "fst (create_categories env c (map CategoryItem cats) w) = Inr ()"
    using gh by (simp add: create_categories_def create_categories_loop_trace)
  ultimately show ?thesis by simp
qed

lemma create_permissions_sends:
  assumes "headers_ok env"
  shows "fst (create_permissions env c ps w) = Inr () \<and>
         sends w [permissions_line c (permissions_data ps)]
           (snd (create_permissions env c ps w))"
proof -
  from headers_ok_get_headers[OF assms, of c "log ''Creating permissions'' w"] obtain h w1 where
    gh: "get_headers env c (log ''Creating permissions'' w) = (Inr h, w1)" by blast
  have "sends w [permissions_line c (permissions_data ps)]
          (snd (create_permissions env c ps w))"
    by (rule sendsI[OF create_permissions_trace[OF gh]])
       (simp add: request_line_def post_request_def permissions_line_def)
  moreover have "fst (create_permissions env c ps w) = Inr ()"
    using gh by (simp add: create_permissions_def split: prod.splits sum.splits)
  ultimately show ?thesis by simp
qed

lemma migrate_settings_objects:
  assumes h: "headers_ok env"
    and g1: "get_categories env src (log ''Starting settings migration'' w) =
               (Inr (map CategoryItem scs), w1)"
    and g3: "get_categories env dst (snd (create_categories env dst (map CategoryItem scs) w1)) =
               (Inr (map CategoryItem dcs), w3)"
    and g4: "get_permissions env src w3 = (Inr (map PermissionItem sps), w4)"
  shows "fst (migrate_settings env src dst w) = Inr () \<and>
         sends w
           ([get_line (base_url src @ ''/identity/resources/permissions/v1/categories'')] @
            map (category_line dst) scs @
            [get_line (base_url dst @ ''/identity/resources/permissions/v1/categories''),
             get_line (base_url src @ ''/identity/resources/permissions/v1''),
             permissions_line dst (List.map_filter (translated_permission scs dcs) sps)])
           (snd (migrate_settings env src dst w))"
proof -
  let ?w0 = "log ''Starting settings migration'' w"
  let ?ps = "map (\<lambda>p. p\<lparr>p_categoryId := mapping_get (category_dict scs dcs) (p_categoryId p)\<rparr>)
               sps"
  obtain r2 w2 where cc: "create_categories env dst (map CategoryItem scs) w1 = (r2, w2)"
    by (cases "create_categories env dst (map CategoryItem scs) w1")
  from create_categories_sends[OF h, of dst scs w1] cc
  have c2: "r2 = Inr ()" and s2: "sends w1 (map (category_line dst) scs) w2"
    by simp_all
  from g3 cc have g3': "get_categories env dst w2 = (Inr (map CategoryItem dcs), w3)"
    by simp
  obtain r5 w5 where
    rw: "rewrite_category_ids (category_dict scs dcs) (map PermissionItem sps) w4 = (r5, w5)"
    by (cases "rewrite_category_ids (category_dict scs dcs) (map PermissionItem sps) w4")
  from rewrite_category_ids_permissions[of "category_dict scs dcs" sps w4] rw
  have c5: "r5 = Inr ?ps" and t5: "trace w5 = trace w4"
    by simp_all
  obtain r6 w6 where cp: "create_permissions env dst ?ps w5 = (r6, w6)"
    by (cases "create_permissions env dst ?ps w5")
  from create_permissions_sends[OF h, of dst ?ps w5] cp
  have c6: "r6 = Inr ()" and s5: "sends w5 [permissions_line dst (permissions_data ?ps)] w6"
    by simp_all
  have ms: "migrate_settings env src dst w = (Inr (), w6)"
    using g1 cc c2 g3' g4 rw c5 cp c6
    by (simp add: migrate_settings_def category_mapping_categories)
  have "trace ?w0 = trace w" by (simp add: log_def)
  from sends_from[OF this[symmetric]] get_categories_sends[OF h, of ?w0 src] g1
  have s1: "sends w [get_line (base_url src @ ''/identity/resources/permissions/v1/categories'')]
              w1"
    by simp
  from get_categories_sends[OF h, of w2 dst] g3'
  have s3: "sends w2
              [get_line (base_url dst @ ''/identity/resources/permissions/v1/categories'')] w3"
    by simp
  from get_permissions_sends[OF h, of w3 src] g4
  have s4: "sends w3 [get_line (base_url src @ ''/identity/resources/permissions/v1'')] w4"
    by simp
  from sends_from[OF t5[symmetric] s5]
  have s5': "sends w4
               [permissions_line dst (List.map_filter (translated_permission scs dcs) sps)] w6"
    by (simp only: permissions_data_rewritten)
  from sends_append[OF s1 sends_append[OF s2 sends_append[OF s3 sends_append[OF s4 s5']]]]
  have "sends w
           ([get_line (base_url src @ ''/identity/resources/permissions/v1/categories'')] @
            map (category_line dst) scs @
            [get_line (base_url dst @ ''/identity/resources/permissions/v1/categories''),
             get_line (base_url src @ ''/identity/resources/permissions/v1''),
             permissions_line dst (List.map_filter (translated_permission scs dcs) sps)])
           w6"
    by simp
  with ms show ?thesis by simp
qed

text \<open>
  A listing answered with a JSON object where a list is expected is returned as it is, and
  the stage raises at the first \<open>category['name']\<close>, after one request.
\<close>

lemma settings_stage_raises_on_object:
  "migrate_settings object_env source_client destination_client empty_world =
     (Inl TypeError,
      \<lparr>server = 1,
       trace = [get_request ''token''
                  ''https://api.frontegg.com/identity/resources/permissions/v1/categories'' []],
       logs = [''Starting settings migration'', ''Creating categories''],
       csv_written = None\<rparr>)"
  by (simp add: migrate_settings_def get_categories_def create_categories_def get_headers_def
      make_request_once session_request_def raise_for_status_def object_env_def log_def
      empty_world_def items_of_def item_name_def source_client_def)

text \<open>
  C6. When the credential is available and the three listings of the settings stage give
  lists of category and permission objects, \<open>migrate_settings\<close> returns without error and
  the requests it sends are, in order: the listing of the source categories, one create
  call per source category, the listing of the destination categories, the listing of the
  source permissions, and one create call whose body is, in order, the source permissions
  translated as the claim says. A translated permission keeps its name and key and has the
  id of a destination category whose name is the name of its source category; a permission
  whose source category has no destination category of the same name has no translation,
  so it is not in the body.
\<close>

theorem permissions_created_with_translated_category:
  "(headers_ok env \<and>
    get_categories env src (log ''Starting settings migration'' w) =
      (Inr (map CategoryItem source_categories), w1) \<and>
    get_categories env dst
      (snd (create_categories env dst (map CategoryItem source_categories) w1)) =
      (Inr (map CategoryItem destination_categories), w3) \<and>
    get_permissions env src w3 = (Inr (map PermissionItem source_permissions), w4) \<longrightarrow>
      fst (migrate_settings env src dst w) = Inr () \<and>
      sends w
        ([get_line (base_url src @ ''/identity/resources/permissions/v1/categories'')] @
         map (category_line dst) source_categories @
         [get_line (base_url dst @ ''/identity/resources/permissions/v1/categories''),
          get_line (base_url src @ ''/identity/resources/permissions/v1''),
          permissions_line dst
            (List.map_filter (translated_permission source_categories destination_categories)
               source_permissions)])
        (snd (migrate_settings env src dst w))) \<and>
   (\<forall>p pd. translated_permission source_categories destination_categories p = Some pd \<longrightarrow>
      (\<exists>sc \<in> set source_categories. \<exists>dc \<in> set destination_categories.
         p_categoryId p = Some (c_id sc) \<and> c_name dc = c_name sc \<and>
         pd_categoryId pd = c_id dc \<and> pd_key pd = p_key p \<and> pd_name pd = p_name p)) \<and>
   (\<forall>p. \<not> (\<exists>sc \<in> set source_categories. \<exists>dc \<in> set destination_categories.
              p_categoryId p = Some (c_id sc) \<and> c_name dc = c_name sc) \<longrightarrow>
      translated_permission source_categories destination_categories p = None)"
proof (intro conjI allI impI)
  assume a: "headers_ok env \<and>
    get_categories env src (log ''Starting settings migration'' w) =
      (Inr (map CategoryItem source_categories), w1) \<and>
    get_categories env dst
      (snd (create_categories env dst (map CategoryItem source_categories) w1)) =
      (Inr (map CategoryItem destination_categories), w3) \<and>
    get_permissions env src w3 = (Inr (map PermissionItem source_permissions), w4)"
  then have h: "headers_ok env"
    and g1: "get_categories env src (log ''Starting settings migration'' w) =
      (Inr (map CategoryItem source_categories), w1)"
    and g3: "get_categories env dst
      (snd (create_categories env dst (map CategoryItem source_categories) w1)) =
      (Inr (map CategoryItem destination_categories), w3)"
    and g4: "get_permissions env src w3 = (Inr (map PermissionItem source_permissions), w4)"
    by simp_all
  note m = migrate_settings_objects[OF h g1 g3 g4]
  from m show "fst (migrate_settings env src dst w) = Inr ()" by (rule conjunct1)
  from m show "sends w
        ([get_line (base_url src @ ''/identity/resources/permissions/v1/categories'')] @
         map (category_line dst) source_categories @
         [get_line (base_url dst @ ''/identity/resources/permissions/v1/categories''),
          get_line (base_url src @ ''/identity/resources/permissions/v1''),
          permissions_line dst
            (List.map_filter (translated_permission source_categories destination_categories)
               source_permissions)])
        (snd (migrate_settings env src dst w))"
    by (rule conjunct2)
next
  fix p :: permission and pd :: permission_data
  assume "translated_permission source_categories destination_categories p = Some pd"
  then show "\<exists>sc \<in> set source_categories. \<exists>dc \<in> set destination_categories.
         p_categoryId p = Some (c_id sc) \<and> c_name dc = c_name sc \<and>
         pd_categoryId pd = c_id dc \<and> pd_key pd = p_key p \<and> pd_name pd = p_name p"
    by (rule translated_permission_Some)
next
  fix p :: permission
  assume "\<not> (\<exists>sc \<in> set source_categories. \<exists>dc \<in> set destination_categories.
              p_categoryId p = Some (c_id sc) \<and> c_name dc = c_name sc)"
  then show "translated_permission source_categories destination_categories p = None"
    by (rule translated_permission_None)
qed

theorem permissions_created_with_translated_category_witness:
  "fst (migrate_settings settings_env source_client destination_client empty_world) = Inr () \<and>
   sends empty_world
     [(GET, ''https://api.frontegg.com/identity/resources/permissions/v1/categories'', None,
       NoBody),
      (POST, ''https://api.us.frontegg.com/identity/resources/permissions/v1/categories'', None,
       CategoryBody ''Billing'' []),
      (GET, ''https://api.us.frontegg.com/identity/resources/permissions/v1/categories'', None,
       NoBody),
      (GET, ''https://api.frontegg.com/identity/resources/permissions/v1'', None, NoBody),
      (POST, ''https://api.us.frontegg.com/identity/resources/permissions/v1'', None,
       PermissionsBody
         [\<lparr>pd_name = ''Read invoices'', pd_description = [], pd_categoryId = ''c2'',
           pd_key = ''invoices.read'', pd_assignmentType = ''Admin''\<rparr>])]
     (snd (migrate_settings settings_env source_client destination_client empty_world)) \<and>
   translated_permission [billing_source] [billing_destination] orphan_permission = None"
proof -
  let ?w1 = "snd (get_categories settings_env source_client
                    (log ''Starting settings migration'' empty_world))"
  let ?w2 = "snd (create_categories settings_env destination_client
                    (map CategoryItem [billing_source]) ?w1)"
  let ?w3 = "snd (get_categories settings_env destination_client ?w2)"
  let ?w4 = "snd (get_permissions settings_env source_client ?w3)"
  have h: "headers_ok settings_env"
    by (simp add: headers_ok_def settings_env_def)
  have v1: "server ?w1 = 1"
    and g1: "get_categories settings_env source_client
               (log ''Starting settings migration'' empty_world) =
             (Inr (map CategoryItem [billing_source]), ?w1)"
    by (simp_all add: get_categories_def get_headers_def make_request_once session_request_def
        raise_for_status_def settings_env_def log_def empty_world_def items_of_def)
  have v2: "server ?w2 = 2"
    using v1
    by (simp add: create_categories_def get_headers_def make_request_once session_request_def
        raise_for_status_def settings_env_def log_def item_name_def item_description_def)
  have v3: "server ?w3 = 3"
    and g3: "get_categories settings_env destination_client ?w2 =
             (Inr (map CategoryItem [billing_destination]), ?w3)"
    using v2
    by (simp_all add: get_categories_def get_headers_def make_request_once session_request_def
        raise_for_status_def settings_env_def items_of_def)
  have g4: "get_permissions settings_env source_client ?w3 =
            (Inr (map PermissionItem [read_invoices, orphan_permission]), ?w4)"
    using v3
    by (simp add: get_permissions_def get_headers_def make_request_once session_request_def
        raise_for_status_def settings_env_def items_of_def)
  have e: "[get_line (base_url source_client @ ''/identity/resources/permissions/v1/categories'')] @
         map (category_line destination_client) [billing_source] @
         [get_line (base_url destination_client @
                      ''/identity/resources/permissions/v1/categories''),
          get_line (base_url source_client @ ''/identity/resources/permissions/v1''),
          permissions_line destination_client
            (List.map_filter (translated_permission [billing_source] [billing_destination])
               [read_invoices, orphan_permission])] =
     [(GET, ''https://api.frontegg.com/identity/resources/permissions/v1/categories'', None,
       NoBody),
      (POST, ''https://api.us.frontegg.com/identity/resources/permissions/v1/categories'', None,
       CategoryBody ''Billing'' []),
      (GET, ''https://api.us.frontegg.com/identity/resources/permissions/v1/categories'', None,
       NoBody),
      (GET, ''https://api.frontegg.com/identity/resources/permissions/v1'', None, NoBody),
      (POST, ''https://api.us.frontegg.com/identity/resources/permissions/v1'', None,
       PermissionsBody
         [\<lparr>pd_name = ''Read invoices'', pd_description = [], pd_categoryId = ''c2'',
           pd_key = ''invoices.read'', pd_assignmentType = ''Admin''\<rparr>])]"
    by code_simp
  have n: "\<not> (\<exists>sc \<in> set [billing_source]. \<exists>dc \<in> set [billing_destination].
              p_categoryId orphan_permission = Some (c_id sc) \<and> c_name dc = c_name sc)"
    by (simp add: orphan_permission_def billing_source_def)
  note t = permissions_created_with_translated_category[where env = settings_env
      and src = source_client and dst = destination_client and w = empty_world
      and source_categories = "[billing_source]"
      and destination_categories = "[billing_destination]"
      and source_permissions = "[read_invoices, orphan_permission]"]
  have a: "fst (migrate_settings settings_env source_client destination_client empty_world) =
             Inr () \<and>
           sends empty_world
             ([get_line (base_url source_client @
                           ''/identity/resources/permissions/v1/categories'')] @
         map (category_line destination_client) [billing_source] @
         [get_line (base_url destination_client @
                      ''/identity/resources/permissions/v1/categories''),
          get_line (base_url source_client @ ''/identity/resources/permissions/v1''),
          permissions_line destination_client
            (List.map_filter (translated_permission [billing_source] [billing_destination])
               [read_invoices, orphan_permission])])
             (snd (migrate_settings settings_env source_client destination_client empty_world))"
    using t[where ?w1.0 = ?w1 and ?w3.0 = ?w3 and ?w4.0 = ?w4, THEN conjunct1, rule_format,
        OF conjI[OF h conjI[OF g1 conjI[OF g3 g4]]]] .
  have b: "translated_permission [billing_source] [billing_destination] orphan_permission =
           None"
    using t[THEN conjunct2, THEN conjunct2, rule_format, OF n] .
  from a b show ?thesis by (simp only: e)
qed

section \<open>Properties of the orchestrator\<close>

declare chunks.simps [simp del]










































end
